theory Spec2Isabelle
  imports
    Complex_Main
    "HOL-Library.Char_ord"
    "HOL-Library.List_Lexorder"
    "HOL-Library.Product_Lexorder"
    "HOL-Library.AList"
    "HOL-Library.Multiset"
begin

section \<open>Data model\<close>

text \<open>
  The pipeline of \<^verbatim>\<open>data_loader.py\<close> and \<^verbatim>\<open>analysis.py\<close> works on pandas
  DataFrames. A DataFrame is modelled as the list of its rows, in row order, each row a
  record of the columns the code names. The raw wide table keeps its date columns as
  columns, since the code unpivots them.

  Column types. \<^verbatim>\<open>Country/Region\<close> is a string and \<^verbatim>\<open>Date\<close> a timestamp
  (an integer day number: only its order and equality are used), both without missing
  values. The case counts of the raw tables are integers (pandas \<^verbatim>\<open>int64\<close>); the
  sum of a group wraps around as a 64-bit sum does. A float column is a list of
  \<open>fval\<close>: a finite value, the two infinities, or NaN, which is how pandas writes a
  missing value. The special values follow IEEE 754, as pandas does (\<open>x / 0\<close> is an
  infinity, \<open>0 / 0\<close> is NaN). A finite value is a rational, and finite arithmetic is
  exact here, where the code rounds every operation to a double: \<open>Fin q\<close> stands for
  the double next to \<open>q\<close>, and the two computations can differ by a step of
  \<^verbatim>\<open>.round(2)\<close> when a quotient lies next to a rounding boundary. The theorem
  about the rates therefore states of them only bounds that the double computation
  meets as well (that they are finite, their range, their distance to the exact
  quotient), not their digits. An integer column that a left join has filled with
  missing values is a list of \<open>int option\<close>, \<open>None\<close> being NaN; that pandas then
  stores the column as doubles, which are exact only up to \<open>2^53\<close>, is not modelled.

  Files. Reading the data directory and writing the processed tables are the only
  effects outside the tables. The directory is taken as it is listed, and the writes,
  which return nothing the code uses, are taken to succeed and are left out.
\<close>

datatype fval = Fin rat | PInf | NInf | NaN

datatype error = KeyError string | ValueError string

record place =
  Country :: string
  Lat :: fval
  Long :: fval

text \<open>
  The raw table of one metric, as \<^verbatim>\<open>read_csv\<close> returns it: the four identifier
  columns, one \<open>raw_row\<close> per sub-location, and the date columns in file order, each
  with its header and one count per row.
\<close>

record raw_row = place +
  Province_State :: "string option"

record raw_table =
  id_rows :: "raw_row list"
  date_cols :: "(string \<times> int list) list"

text \<open>The long table of one metric (one row per country and date) and the merged table.\<close>

record located = place +
  Date :: int

record long_record = located +
  Cases :: int

record merged_record = located +
  Confirmed :: int
  Deaths :: int
  Recovered :: int
  Active :: int
  Death_Rate :: fval
  Recovery_Rate :: fval

section \<open>Float columns\<close>

text \<open>\<^verbatim>\<open>a / b\<close> on two numeric columns, row by row; a missing operand gives NaN.\<close>

fun truediv :: "int option \<Rightarrow> int option \<Rightarrow> fval" where
  "truediv (Some a) (Some b) =
     (if b \<noteq> 0 then Fin (of_int a / of_int b)
      else if a = 0 then NaN
      else if 0 < a then PInf else NInf)"
| "truediv _ _ = NaN"

text \<open>\<^verbatim>\<open>x * k\<close> for a positive finite constant \<open>k\<close> (the code multiplies by 100).\<close>

fun fmul :: "fval \<Rightarrow> rat \<Rightarrow> fval" where
  "fmul (Fin q) k = Fin (q * k)"
| "fmul v k = v"

text \<open>Rounding to the nearest integer, ties to the even one (numpy's \<^verbatim>\<open>rint\<close>).\<close>

definition rint :: "rat \<Rightarrow> int" where
  "rint q =
     (let f = \<lfloor>q\<rfloor>; d = q - of_int f
      in if d < 1 / 2 then f
         else if 1 / 2 < d then f + 1
         else if even f then f else f + 1)"

text \<open>\<^verbatim>\<open>.round(2)\<close>: scale by 100, round, scale back; NaN and infinities stay.\<close>

definition round_to_2 :: "rat \<Rightarrow> rat" where
  "round_to_2 q = of_int (rint (q * 100)) / 100"

fun round2 :: "fval \<Rightarrow> fval" where
  "round2 (Fin q) = Fin (round_to_2 q)"
| "round2 v = v"

text \<open>\<^verbatim>\<open>fillna(0)\<close> replaces NaN, and only NaN, by 0.\<close>

fun fillna0 :: "fval \<Rightarrow> fval" where
  "fillna0 NaN = Fin 0"
| "fillna0 v = v"

fun fillna0_int :: "int option \<Rightarrow> int" where
  "fillna0_int None = 0"
| "fillna0_int (Some n) = n"

text \<open>Subtraction of two columns; NaN propagates.\<close>

fun sub_na :: "int option \<Rightarrow> int option \<Rightarrow> int option" where
  "sub_na (Some a) (Some b) = Some (a - b)"
| "sub_na _ _ = None"

section \<open>Merger: \<^verbatim>\<open>CovidDataLoader.get_merged_data\<close>\<close>

text \<open>
  \<^verbatim>\<open>left.merge(right[[keys, col]], on=keys, how="left")\<close>: every left row, in
  order, once for each right row with the same key (in right order), and once with a
  missing value when no right row matches.
\<close>

definition key :: "'a located_scheme \<Rightarrow> string \<times> int" where
  "key r = (Country r, Date r)"

definition left_merge ::
  "('l \<Rightarrow> string \<times> int) \<Rightarrow> 'l list \<Rightarrow> long_record list \<Rightarrow> ('l \<times> int option) list" where
  "left_merge kf left right =
     concat (map (\<lambda>l.
       (let ms = filter (\<lambda>r. key r = kf l) right
        in if ms = [] then [(l, None)] else map (\<lambda>r. (l, Some (Cases r))) ms)) left)"

text \<open>
  Lines 102 to 110 on one row of the joined table: the three derived columns are
  computed first, from the joined values, and \<^verbatim>\<open>fillna(0)\<close> runs last, over every
  column of the table.
\<close>

definition derive :: "(long_record \<times> int option) \<times> int option \<Rightarrow> merged_record" where
  "derive row =
     (let c = fst (fst row);
          confirmed = Some (Cases c);
          deaths = snd (fst row);
          recovered = snd row;
          active = sub_na (sub_na confirmed deaths) recovered;
          death_rate = round2 (fmul (truediv deaths confirmed) 100);
          recovery_rate = round2 (fmul (truediv recovered confirmed) 100)
      in \<lparr>Country = Country c,
          Lat = fillna0 (Lat c), Long = fillna0 (Long c),
          Date = Date c,
          Confirmed = fillna0_int confirmed,
          Deaths = fillna0_int deaths,
          Recovered = fillna0_int recovered,
          Active = fillna0_int active,
          Death_Rate = fillna0 death_rate,
          Recovery_Rate = fillna0 recovery_rate\<rparr>)"

definition merge_tables ::
  "long_record list \<Rightarrow> long_record list \<Rightarrow> long_record list \<Rightarrow> merged_record list" where
  "merge_tables confirmed deaths recovered =
     map derive (left_merge (key \<circ> fst) (left_merge key confirmed deaths) recovered)"

text \<open>
  \<^verbatim>\<open>processed_data\<close> is a dict from metric name to table, modelled as an
  association list in insertion order; \<^verbatim>\<open>processed_data["deaths"]\<close> raises
  \<^verbatim>\<open>KeyError\<close> when the key is absent. The three lookups run in the order of
  lines 87 to 89.
\<close>

definition getitem :: "(string \<times> 'a) list \<Rightarrow> string \<Rightarrow> error + 'a" where
  "getitem d k = (case map_of d k of None \<Rightarrow> Inl (KeyError k) | Some v \<Rightarrow> Inr v)"

definition get_merged_data :: "(string \<times> long_record list) list \<Rightarrow> error + merged_record list" where
  "get_merged_data processed_data =
     (case getitem processed_data ''confirmed'' of Inl e \<Rightarrow> Inl e | Inr confirmed \<Rightarrow>
       (case getitem processed_data ''deaths'' of Inl e \<Rightarrow> Inl e | Inr deaths \<Rightarrow>
         (case getitem processed_data ''recovered'' of Inl e \<Rightarrow> Inl e | Inr recovered \<Rightarrow>
            Inr (merge_tables confirmed deaths recovered))))"

section \<open>Loader: \<^verbatim>\<open>CovidDataLoader.load_data\<close>\<close>

text \<open>
  The data directory, which exists, is the list of its entries in \<^verbatim>\<open>os.listdir\<close>
  order, each with the table \<^verbatim>\<open>read_csv\<close> returns for it. For each metric the
  first entry whose name starts with \<^verbatim>\<open>{data_type}_time_series\<close> is loaded; when
  there is none, a message is printed and the metric gets no entry in the returned dict.
\<close>

definition startswith :: "string \<Rightarrow> string \<Rightarrow> bool" where
  "startswith s p = (take (length p) s = p)"

fun load_types :: "(string \<times> raw_table) list \<Rightarrow> string list \<Rightarrow> (string \<times> raw_table) list" where
  "load_types data_dir [] = []"
| "load_types data_dir (data_type # rest) =
     (case filter (\<lambda>f. startswith (fst f) (data_type @ ''_time_series'')) data_dir of
        [] \<Rightarrow> load_types data_dir rest
      | f # _ \<Rightarrow> (data_type, snd f) # load_types data_dir rest)"

definition load_data :: "(string \<times> raw_table) list \<Rightarrow> (string \<times> raw_table) list" where
  "load_data data_dir = load_types data_dir [''confirmed'', ''deaths'', ''recovered'']"

section \<open>Reshaper: \<^verbatim>\<open>CovidDataLoader.preprocess_data\<close>\<close>

text \<open>
  \<^verbatim>\<open>df.melt(id_vars, var_name="Date", value_name="Cases")\<close>: the date columns one
  after the other, each with every row of the table in row order.
\<close>

definition melt :: "raw_table \<Rightarrow> (raw_row \<times> string \<times> int) list" where
  "melt df =
     concat (map (\<lambda>col. map (\<lambda>rv. (fst rv, fst col, snd rv)) (zip (id_rows df) (snd col)))
       (date_cols df))"

text \<open>
  \<^verbatim>\<open>pd.to_datetime\<close> on the melted \<^verbatim>\<open>Date\<close> column. The parser of date
  strings is pandas' own and is a parameter here: \<open>None\<close> for a string it rejects, in
  which case the call raises. pandas fixes the date format on the first value of the
  column and reads the others with it; \<open>parse\<close> is the parser with that format, so
  the theorems about a reshaped table are about the tables pandas accepts.
\<close>

fun to_datetime ::
  "(string \<Rightarrow> int option) \<Rightarrow> (raw_row \<times> string \<times> int) list
     \<Rightarrow> error + (raw_row \<times> int \<times> int) list" where
  "to_datetime parse [] = Inr []"
| "to_datetime parse ((r, h, v) # rest) =
     (case parse h of
        None \<Rightarrow> Inl (ValueError h)
      | Some d \<Rightarrow>
         (case to_datetime parse rest of
            Inl e \<Rightarrow> Inl e
          | Inr rest' \<Rightarrow> Inr ((r, d, v) # rest')))"

text \<open>
  The aggregation \<^verbatim>\<open>"first"\<close> of a pandas group-by is the first value of the group
  that is not missing (NaN when all are).
\<close>

fun first_valid :: "fval list \<Rightarrow> fval" where
  "first_valid [] = NaN"
| "first_valid (v # vs) = (if v = NaN then first_valid vs else v)"

definition group_key :: "raw_row \<times> int \<times> int \<Rightarrow> string \<times> int" where
  "group_key m = (Country (fst m), fst (snd m))"

text \<open>
  \<^verbatim>\<open>groupby(["Country/Region", "Date"]).agg(...).reset_index()\<close>: one row per
  distinct key, the keys in ascending order, each group holding its rows in the order
  of the melted table.
\<close>

text \<open>
  The aggregation \<^verbatim>\<open>"sum"\<close> of an \<^verbatim>\<open>int64\<close> column adds in 64-bit two's
  complement: a sum outside \<open>[-2^63, 2^63)\<close> wraps around.
\<close>

definition wrap64 :: "int \<Rightarrow> int" where
  "wrap64 n = (n + 2 ^ 63) mod 2 ^ 64 - 2 ^ 63"

definition groupby_agg :: "(raw_row \<times> int \<times> int) list \<Rightarrow> long_record list" where
  "groupby_agg melted_df =
     map (\<lambda>k.
       (let g = filter (\<lambda>m. group_key m = k) melted_df
        in \<lparr>Country = fst k,
            Lat = first_valid (map (\<lambda>m. Lat (fst m)) g),
            Long = first_valid (map (\<lambda>m. Long (fst m)) g),
            Date = snd k,
            Cases = wrap64 (sum_list (map (\<lambda>m. snd (snd m)) g))\<rparr>))
       (sort (remdups (map group_key melted_df)))"

text \<open>
  A DataFrame is rectangular: every date column has one value per row. The record
  type does not enforce it, so it is a predicate.
\<close>

definition table_ok :: "raw_table \<Rightarrow> bool" where
  "table_ok df = list_all (\<lambda>col. length (snd col) = length (id_rows df)) (date_cols df)"

definition preprocess_table :: "(string \<Rightarrow> int option) \<Rightarrow> raw_table \<Rightarrow> error + long_record list" where
  "preprocess_table parse df =
     (case to_datetime parse (melt df) of
        Inl e \<Rightarrow> Inl e
      | Inr melted_df \<Rightarrow> Inr (groupby_agg melted_df))"

text \<open>
  The loop over \<^verbatim>\<open>data.items()\<close>; an exception in one table ends the call.
\<close>

fun preprocess_data ::
  "(string \<Rightarrow> int option) \<Rightarrow> (string \<times> raw_table) list
     \<Rightarrow> error + (string \<times> long_record list) list" where
  "preprocess_data parse [] = Inr []"
| "preprocess_data parse ((data_type, df) # rest) =
     (case preprocess_table parse df of
        Inl e \<Rightarrow> Inl e
      | Inr country_data \<Rightarrow>
         (case preprocess_data parse rest of
            Inl e \<Rightarrow> Inl e
          | Inr processed_data \<Rightarrow> Inr ((data_type, country_data) # processed_data)))"

section \<open>Analyzer: \<^verbatim>\<open>CovidAnalysis\<close>\<close>

text \<open>\<^verbatim>\<open>self.data["Date"].max()\<close>; on an empty table it is the missing value.\<close>

definition date_max :: "merged_record list \<Rightarrow> int option" where
  "date_max data =
     (case data of [] \<Rightarrow> None | r # rs \<Rightarrow> Some (fold max (map Date rs) (Date r)))"

text \<open>
  \<^verbatim>\<open>nlargest(n, col)\<close>: the rows in descending order of the column, rows with equal
  values in their original order, cut to the first \<open>n\<close> (none when \<open>n \<le> 0\<close>).
\<close>

definition nlargest :: "int \<Rightarrow> ('a \<Rightarrow> int) \<Rightarrow> 'a list \<Rightarrow> 'a list" where
  "nlargest n col df = take (nat n) (sort_key (\<lambda>r. - col r) df)"

text \<open>
  The result keeps the columns \<^verbatim>\<open>Country/Region, Confirmed, Deaths, Recovered,
  Death_Rate\<close>, in this order. A row that compares with a missing date is not selected.
\<close>

definition get_top_countries_by_cases ::
  "merged_record list \<Rightarrow> int \<Rightarrow> int option \<Rightarrow> (string \<times> int \<times> int \<times> int \<times> fval) list" where
  "get_top_countries_by_cases data n latest_date =
     (let latest_date = (case latest_date of None \<Rightarrow> date_max data | Some d \<Rightarrow> Some d);
          latest_data = filter (\<lambda>r. Some (Date r) = latest_date) data;
          top_countries = nlargest n Confirmed latest_data
      in map (\<lambda>r. (Country r, Confirmed r, Deaths r, Recovered r, Death_Rate r)) top_countries)"

text \<open>
  \<^verbatim>\<open>sort_values("Date")\<close> is modelled as a stable sort. pandas' default algorithm
  is not stable; the two agree on every table whose dates are distinct, as those of one
  country are, and the theorem about this query states only what holds of every sort.
\<close>

definition get_country_time_series :: "merged_record list \<Rightarrow> string \<Rightarrow> merged_record list" where
  "get_country_time_series data country_name =
     sort_key Date (filter (\<lambda>r. Country r = country_name) data)"

subsection \<open>DataFrame objects\<close>

text \<open>
  \<^verbatim>\<open>calculate_growth_rates\<close> rebinds its parameter and then assigns columns, so
  whether the caller's table changes depends on which object each statement works on.
  The objects live in a store, a list of frames indexed by address. A frame holds the
  rows of the merged table and the float columns added to it, by name, each as long as
  the table.
\<close>

record frame =
  rows :: "merged_record list"
  derived :: "(string \<times> fval list) list"

type_synonym store = "frame list"

text \<open>
  \<^verbatim>\<open>df.sort_values("Date")\<close> computes the sorting permutation of the key column
  and builds a new frame, every column taken through the permutation; the frame it is
  called on is left as it is. The new object gets a fresh address. The permutation
  here is that of a stable sort; pandas' default algorithm may order rows of equal date
  otherwise, so the theorem about the caller's table says of the order of the result
  only what holds of every sorting permutation.
\<close>

definition argsort :: "int list \<Rightarrow> nat list" where
  "argsort ks = map snd (sort_key fst (zip ks [0..<length ks]))"

definition sorted_frame :: "frame \<Rightarrow> frame" where
  "sorted_frame f =
     (let idx = argsort (map Date (rows f))
      in \<lparr>rows = map (nth (rows f)) idx,
          derived = map (\<lambda>c. (fst c, map (nth (snd c)) idx)) (derived f)\<rparr>)"

definition sort_values :: "store \<Rightarrow> nat \<Rightarrow> store \<times> nat" where
  "sort_values h a = (h @ [sorted_frame (h ! a)], length h)"

text \<open>
  \<^verbatim>\<open>df[name] = values\<close> changes the object at the address in place: an existing
  column is replaced where it stands, a new one is appended.
\<close>

definition setitem :: "store \<Rightarrow> nat \<Rightarrow> string \<Rightarrow> fval list \<Rightarrow> store" where
  "setitem h a name vals =
     h[a := (h ! a)\<lparr>derived := AList.update name vals (derived (h ! a))\<rparr>]"

text \<open>\<^verbatim>\<open>df[name]\<close> on an added column; \<^verbatim>\<open>KeyError\<close> when there is none.\<close>

definition getcol :: "store \<Rightarrow> nat \<Rightarrow> string \<Rightarrow> error + fval list" where
  "getcol h a name =
     (case map_of (derived (h ! a)) name of
        None \<Rightarrow> Inl (KeyError name)
      | Some vals \<Rightarrow> Inr vals)"

subsection \<open>Column operations\<close>

text \<open>\<^verbatim>\<open>.diff()\<close>: the difference to the previous row, missing in the first row.\<close>

definition diff :: "int list \<Rightarrow> fval list" where
  "diff xs =
     (case xs of
        [] \<Rightarrow> []
      | x # rest \<Rightarrow> NaN # map (\<lambda>p. Fin (of_int (snd p - fst p))) (zip xs rest))"

text \<open>
  \<^verbatim>\<open>.pct_change()\<close>: the quotient by the previous row, less one; missing in the
  first row.
\<close>

fun fsub :: "fval \<Rightarrow> rat \<Rightarrow> fval" where
  "fsub (Fin q) k = Fin (q - k)"
| "fsub v k = v"

definition pct_change :: "int list \<Rightarrow> fval list" where
  "pct_change xs =
     (case xs of
        [] \<Rightarrow> []
      | x # rest \<Rightarrow>
          NaN # map (\<lambda>p. fsub (truediv (Some (snd p)) (Some (fst p))) 1) (zip xs rest))"

text \<open>
  \<^verbatim>\<open>.rolling(window=w).mean()\<close>: at row \<open>i\<close> the window is the rows
  \<open>i - w + 1\<close> to \<open>i\<close>; the mean is missing unless the window holds \<open>w\<close> values
  that are not missing. The columns it is applied to here are differences of integers
  and hold no infinity; a window with one is given NaN.
\<close>

fun fin_vals :: "fval list \<Rightarrow> rat list option" where
  "fin_vals [] = Some []"
| "fin_vals (Fin q # vs) = map_option ((#) q) (fin_vals vs)"
| "fin_vals (v # vs) = None"

definition window_mean :: "fval list \<Rightarrow> fval" where
  "window_mean ws =
     (case fin_vals ws of
        None \<Rightarrow> NaN
      | Some qs \<Rightarrow> Fin (sum_list qs / of_nat (length qs)))"

definition rolling_mean :: "nat \<Rightarrow> fval list \<Rightarrow> fval list" where
  "rolling_mean w vs =
     map (\<lambda>i. if i + 1 < w then NaN else window_mean (take w (drop (i + 1 - w) vs)))
       [0..<length vs]"

subsection \<open>\<^verbatim>\<open>calculate_growth_rates\<close>\<close>

definition bind :: "error + 'a \<Rightarrow> ('a \<Rightarrow> error + 'b) \<Rightarrow> error + 'b" where
  "bind m f = (case m of Inl e \<Rightarrow> Inl e | Inr x \<Rightarrow> f x)"

definition calculate_growth_rates :: "store \<Rightarrow> nat \<Rightarrow> error + store \<times> nat" where
  "calculate_growth_rates h0 caller_data =
     (let (h1, country_data) = sort_values h0 caller_data;
          h2 = setitem h1 country_data ''Daily_Confirmed''
                 (diff (map Confirmed (rows (h1 ! country_data))));
          h3 = setitem h2 country_data ''Daily_Deaths''
                 (diff (map Deaths (rows (h2 ! country_data))));
          h4 = setitem h3 country_data ''Confirmed_Growth_Rate''
                 (map (\<lambda>v. round2 (fmul v 100))
                    (pct_change (map Confirmed (rows (h3 ! country_data)))));
          h5 = setitem h4 country_data ''Death_Growth_Rate''
                 (map (\<lambda>v. round2 (fmul v 100))
                    (pct_change (map Deaths (rows (h4 ! country_data)))))
      in bind (getcol h5 country_data ''Daily_Confirmed'') (\<lambda>daily_confirmed.
           (let h6 = setitem h5 country_data ''Confirmed_MA_7'' (rolling_mean 7 daily_confirmed)
            in bind (getcol h6 country_data ''Daily_Deaths'') (\<lambda>daily_deaths.
                 (let h7 = setitem h6 country_data ''Deaths_MA_7'' (rolling_mean 7 daily_deaths)
                  in Inr (h7, country_data))))))"

section \<open>Sample inputs\<close>

text \<open>Concrete tables on which the theorems below are evaluated.\<close>

definition long_row :: "string \<Rightarrow> int \<Rightarrow> int \<Rightarrow> long_record" where
  "long_row c d n = \<lparr>Country = c, Lat = Fin 40, Long = Fin (- 100), Date = d, Cases = n\<rparr>"

definition sample_processed :: "(string \<times> long_record list) list" where
  "sample_processed =
     [(''confirmed'', [long_row ''FR'' 1 0, long_row ''US'' 1 10]),
      (''deaths'', [long_row ''DE'' 1 4, long_row ''US'' 1 1]),
      (''recovered'', [long_row ''IT'' 2 3])]"

definition merged_row :: "string \<Rightarrow> int \<Rightarrow> int \<Rightarrow> merged_record" where
  "merged_row c d n =
     \<lparr>Country = c, Lat = Fin 0, Long = Fin 0, Date = d, Confirmed = n, Deaths = 0,
      Recovered = 0, Active = n, Death_Rate = Fin 0, Recovery_Rate = Fin 0\<rparr>"

definition sample_merged :: "merged_record list" where
  "sample_merged =
     [merged_row ''A'' 2 1000, merged_row ''B'' 2 500, merged_row ''Z'' 1 9999,
      merged_row ''C'' 2 2000, merged_row ''D'' 2 300, merged_row ''A'' 1 900,
      merged_row ''E'' 2 100, merged_row ''F'' 2 50]"

definition snapshot_row :: "string \<Rightarrow> int \<Rightarrow> int \<Rightarrow> merged_record" where
  "snapshot_row c n k = (merged_row c 2 n)\<lparr>Deaths := k\<rparr>"

definition sample_snapshot :: "merged_record list" where
  "sample_snapshot =
     [snapshot_row ''A'' 1000 10, snapshot_row ''B'' 500 20, merged_row ''Z'' 1 9999,
      snapshot_row ''C'' 2000 30, snapshot_row ''D'' 300 40, snapshot_row ''E'' 100 50,
      snapshot_row ''F'' 50 60]"

definition sample_table :: raw_table where
  "sample_table =
     \<lparr>id_rows =
        [\<lparr>Country = ''CA'', Lat = NaN, Long = Fin 5, Province_State = Some ''X''\<rparr>,
         \<lparr>Country = ''AB'', Lat = Fin 1, Long = Fin 2, Province_State = None\<rparr>,
         \<lparr>Country = ''CA'', Lat = Fin 53, Long = Fin 7, Province_State = Some ''Y''\<rparr>],
      date_cols = [(''1/22/20'', [1, 2, 3]), (''1/23/20'', [10, 20, 30])]\<rparr>"

definition wrap_table :: raw_table where
  "wrap_table =
     \<lparr>id_rows =
        [\<lparr>Country = ''CA'', Lat = Fin 1, Long = Fin 2, Province_State = Some ''X''\<rparr>,
         \<lparr>Country = ''CA'', Lat = Fin 3, Long = Fin 4, Province_State = Some ''Y''\<rparr>],
      date_cols = [(''1/22/20'', [2 ^ 62, 2 ^ 62])]\<rparr>"

definition sample_parse :: "string \<Rightarrow> int option" where
  "sample_parse s =
     (if s = ''1/22/20'' then Some 22 else if s = ''1/23/20'' then Some 23 else None)"

definition sample_long :: "long_record list" where
  "sample_long =
     [\<lparr>Country = ''AB'', Lat = Fin 1, Long = Fin 2, Date = 22, Cases = 2\<rparr>,
      \<lparr>Country = ''AB'', Lat = Fin 1, Long = Fin 2, Date = 23, Cases = 20\<rparr>,
      \<lparr>Country = ''CA'', Lat = Fin 53, Long = Fin 5, Date = 22, Cases = 4\<rparr>,
      \<lparr>Country = ''CA'', Lat = Fin 53, Long = Fin 5, Date = 23, Cases = 40\<rparr>]"

definition sample_dir :: "(string \<times> raw_table) list" where
  "sample_dir =
     [(''recovered_time_series_covid19_recovered_global.csv'', sample_table),
      (''notes.txt'', sample_table),
      (''confirmed_time_series_covid19_confirmed_global.csv'', sample_table)]"

definition sample_series :: "merged_record list" where
  "sample_series =
     map (\<lambda>i. (merged_row ''A'' i (10 * i * i))\<lparr>Deaths := i\<rparr>) [1, 2, 3, 4, 5, 6, 7, 8, 9]"

definition sample_store :: store where
  "sample_store = [\<lparr>rows = sample_series, derived = []\<rparr>]"

definition unsorted_store :: store where
  "unsorted_store =
     [\<lparr>rows = [merged_row ''A'' 3 30, merged_row ''A'' 1 10, merged_row ''A'' 2 20],
       derived = [(''Note'', [Fin 3, Fin 1, Fin 2])]\<rparr>]"

section \<open>Properties of the merger\<close>

subsection \<open>Rounding to two decimals\<close>






subsection \<open>The left join\<close>

lemma left_merge_Cons:
  "left_merge kf (l # left) right =
     (let ms = filter (\<lambda>r. key r = kf l) right
      in if ms = [] then [(l, None)] else map (\<lambda>r. (l, Some (Cases r))) ms)
     @ left_merge kf left right"
  by (simp add: left_merge_def)

lemma left_merge_fst: "fst ` set (left_merge kf left right) = set left"
proof (induction left)
  case Nil
  show ?case by (simp add: left_merge_def)
next
  case (Cons l left)
  have "fst ` set (let ms = filter (\<lambda>r. key r = kf l) right
      in if ms = [] then [(l, None)] else map (\<lambda>r. (l, Some (Cases r))) ms) = {l}"
    by (cases "filter (\<lambda>r. key r = kf l) right") (auto simp: Let_def image_iff)
  then show ?case using Cons by (simp add: left_merge_Cons image_Un)
qed


lemma key_derive: "key (derive row) = key (fst (fst row))"
  by (simp add: derive_def key_def Let_def)

lemma merge_tables_keys: "key ` set (merge_tables c d r) = key ` set c"
proof -
  have "key ` set (merge_tables c d r)
      = key ` fst ` fst ` set (left_merge (key \<circ> fst) (left_merge key c d) r)"
    by (simp add: merge_tables_def image_image key_derive)
  then show ?thesis by (simp only: left_merge_fst)
qed

lemma get_merged_data_present:
  assumes "map_of processed_data ''confirmed'' = Some confirmed"
    and "map_of processed_data ''deaths'' = Some deaths"
    and "map_of processed_data ''recovered'' = Some recovered"
  shows "get_merged_data processed_data = Inr (merge_tables confirmed deaths recovered)"
  using assms by (simp add: get_merged_data_def getitem_def)


subsection \<open>The derived columns\<close>

lemma derive_fields:
  "Confirmed (derive ((c, dv), rv)) = Cases c"
  "Deaths (derive ((c, dv), rv)) = fillna0_int dv"
  "Recovered (derive ((c, dv), rv)) = fillna0_int rv"
  "Active (derive ((c, dv), rv)) = fillna0_int (sub_na (sub_na (Some (Cases c)) dv) rv)"
  "Death_Rate (derive ((c, dv), rv)) = fillna0 (round2 (fmul (truediv dv (Some (Cases c))) 100))"
  "Recovery_Rate (derive ((c, dv), rv)) = fillna0 (round2 (fmul (truediv rv (Some (Cases c))) 100))"
  by (simp_all add: derive_def Let_def)






lemma active_when_matched:
  "Active (derive ((c, Some d), Some r)) = Cases c - d - r"
  by (simp add: derive_fields)

text \<open>
  Claim C1. Every row of the merged table satisfies
  \<open>Active = Confirmed - Deaths - Recovered\<close>, also when a join found no row and the
  count was filled with 0. The code computes \<^verbatim>\<open>Active\<close> on line 103, before
  \<^verbatim>\<open>fillna(0)\<close> on line 110: with no recovered row for the key the difference is
  NaN and is then filled with 0. On the input below the returned row has
  \<open>Confirmed = 7\<close>, \<open>Deaths = 1\<close>, \<open>Recovered = 0\<close> and \<open>Active = 0\<close>, not 6.
  (Lemma \<open>active_when_matched\<close>: the equation does hold on a row both of whose joins
  found a row.)
\<close>

theorem active_lost_on_unmatched_recovered:
  "get_merged_data
     [(''confirmed'', [long_row ''FR'' 3 7]), (''deaths'', [long_row ''FR'' 3 1]),
      (''recovered'', [])]
   = Inr [\<lparr>Country = ''FR'', Lat = Fin 40, Long = Fin (- 100), Date = 3,
            Confirmed = 7, Deaths = 1, Recovered = 0, Active = 0,
            Death_Rate = Fin (1429 / 100), Recovery_Rate = Fin 0\<rparr>]"
  by code_simp

text \<open>
  Claim C2. Merging confirmed \<open>{(US, d1): 10}\<close>, an empty deaths table and recovered
  \<open>{(US, d1): 2}\<close> gives one row with \<open>Confirmed = 10\<close>, \<open>Deaths = 0\<close>,
  \<open>Recovered = 2\<close> and \<open>Active = 8\<close>. The code returns that one row with the missing
  deaths filled with 0, but with \<open>Active = 0\<close>: \<open>10 - NaN - 2\<close> is NaN when line 103
  runs, and line 110 fills it with 0.
\<close>

theorem merge_example_active_zero:
  "get_merged_data
     [(''confirmed'', [long_row ''US'' 1 10]), (''deaths'', []),
      (''recovered'', [long_row ''US'' 1 2])]
   = Inr [\<lparr>Country = ''US'', Lat = Fin 40, Long = Fin (- 100), Date = 1,
            Confirmed = 10, Deaths = 0, Recovered = 2, Active = 0,
            Death_Rate = Fin 0, Recovery_Rate = Fin 20\<rparr>]"
  by code_simp




text \<open>
  Claim C6. The keys \<open>(Country, Date)\<close> of the merged table are exactly the keys of
  the confirmed table: each confirmed row gives at least one merged row, and a key that
  only the deaths or the recovered table has does not appear.
\<close>

theorem merged_keys:
  assumes "map_of processed_data ''confirmed'' = Some confirmed"
    and "map_of processed_data ''deaths'' = Some deaths"
    and "map_of processed_data ''recovered'' = Some recovered"
  shows "\<exists>merged. get_merged_data processed_data = Inr merged \<and>
           key ` set merged = key ` set confirmed"
  using get_merged_data_present[OF assms] merge_tables_keys by blast

theorem merged_keys_witness:
  "map_of sample_processed ''confirmed'' = Some [long_row ''FR'' 1 0, long_row ''US'' 1 10] \<and>
   map_of sample_processed ''deaths'' = Some [long_row ''DE'' 1 4, long_row ''US'' 1 1] \<and>
   map_of sample_processed ''recovered'' = Some [long_row ''IT'' 2 3] \<and>
   (\<exists>merged. get_merged_data sample_processed = Inr merged \<and>
      key ` set merged = {(''FR'', 1), (''US'', 1)})"
proof -
  have c: "map_of sample_processed ''confirmed'' = Some [long_row ''FR'' 1 0, long_row ''US'' 1 10]"
    and d: "map_of sample_processed ''deaths'' = Some [long_row ''DE'' 1 4, long_row ''US'' 1 1]"
    and r: "map_of sample_processed ''recovered'' = Some [long_row ''IT'' 2 3]"
    by (simp_all add: sample_processed_def)
  from merged_keys[OF c d r] c d r show ?thesis
    by (simp add: key_def long_row_def)
qed

section \<open>Properties of the analyzer queries\<close>

lemma map_insort_key:
  "map g (insort_key (\<lambda>x. k (g x)) x ys) = insort_key k (g x) (map g ys)"
  by (induction ys) simp_all

lemma map_sort_key:
  "map g (sort_key (\<lambda>x. k (g x)) xs) = sort_key k (map g xs)"
  by (induction xs) (simp_all add: map_insort_key)

lemma date_max_eq: "data \<noteq> [] \<Longrightarrow> date_max data = Some (Max (Date ` set data))"
  by (cases data) (simp_all add: date_max_def Max.set_eq_fold[symmetric])

lemma default_date_is_max:
  "data \<noteq> [] \<Longrightarrow>
     get_top_countries_by_cases data n None
       = get_top_countries_by_cases data n (Some (Max (Date ` set data)))"
  by (simp add: get_top_countries_by_cases_def date_max_eq)

lemma sort_of_six_rows:
  fixes a b c d e f :: merged_record
  assumes m: "mset xs = {#a, b, c, d, e, f#}"
    and v: "Confirmed a = 1000" "Confirmed b = 500" "Confirmed c = 2000"
           "Confirmed d = 300" "Confirmed e = 100" "Confirmed f = 50"
  shows "sort_key (\<lambda>r. - Confirmed r) xs = [c, a, b, d, e, f]"
proof (rule properties_for_sort_key)
  show "mset [c, a, b, d, e, f] = mset xs"
    by (simp add: m)
next
  show "sorted (map (\<lambda>r. - Confirmed r) [c, a, b, d, e, f])"
    by (simp add: v)
next
  fix k
  assume k: "k \<in> set [c, a, b, d, e, f]"
  have "mset (filter (\<lambda>x. - Confirmed k = - Confirmed x) xs)
      = filter_mset (\<lambda>x. - Confirmed k = - Confirmed x) (mset xs)" by simp
  also have "\<dots> = {#k#}" using k v unfolding m by auto
  finally have "filter (\<lambda>x. - Confirmed k = - Confirmed x) xs = [k]"
    by (simp only: mset_single_iff)
  moreover have "filter (\<lambda>x. - Confirmed k = - Confirmed x) [c, a, b, d, e, f] = [k]"
    using k v by auto
  ultimately show "filter (\<lambda>x. - Confirmed k = - Confirmed x) [c, a, b, d, e, f]
      = filter (\<lambda>x. - Confirmed k = - Confirmed x) xs" by simp
qed


text \<open>
  Claim C7. With no date given, \<^verbatim>\<open>get_top_countries_by_cases\<close> uses the greatest
  date of the table: on every table that is not empty, and for every \<open>n\<close>, the call
  equals the call with that date given (on the empty table it returns no row). With
  \<open>n = 5\<close>, on a table whose rows at its latest date are six rows \<open>a\<close> to \<open>f\<close> of the
  countries A = 1000, B = 500, C = 2000, D = 300, E = 100, F = 50 (in any row order,
  among rows of other dates), it returns the five rows of C, A, B, D, E in this order,
  each with the columns \<^verbatim>\<open>Country/Region, Confirmed, Deaths, Recovered, Death_Rate\<close>
  of its row.
\<close>

theorem top_five_by_confirmed:
  "(data \<noteq> [] \<longrightarrow>
      get_top_countries_by_cases data n None
        = get_top_countries_by_cases data n (Some (Max (Date ` set data)))) \<and>
   get_top_countries_by_cases [] n None = [] \<and>
   (mset (filter (\<lambda>r. Date r = Max (Date ` set data)) data) = {#a, b, c, d, e, f#} \<and>
    Country a = ''A'' \<and> Confirmed a = 1000 \<and> Country b = ''B'' \<and> Confirmed b = 500 \<and>
    Country c = ''C'' \<and> Confirmed c = 2000 \<and> Country d = ''D'' \<and> Confirmed d = 300 \<and>
    Country e = ''E'' \<and> Confirmed e = 100 \<and> Country f = ''F'' \<and> Confirmed f = 50 \<longrightarrow>
    get_top_countries_by_cases data 5 None
      = [(''C'', 2000, Deaths c, Recovered c, Death_Rate c),
         (''A'', 1000, Deaths a, Recovered a, Death_Rate a),
         (''B'', 500, Deaths b, Recovered b, Death_Rate b),
         (''D'', 300, Deaths d, Recovered d, Death_Rate d),
         (''E'', 100, Deaths e, Recovered e, Death_Rate e)])"
proof (intro conjI impI)
  show "get_top_countries_by_cases data n None
        = get_top_countries_by_cases data n (Some (Max (Date ` set data)))" if "data \<noteq> []"
    using that by (rule default_date_is_max)
  show "get_top_countries_by_cases [] n None = []"
    by (simp add: get_top_countries_by_cases_def nlargest_def date_max_def)
next
  let ?latest = "filter (\<lambda>r. Date r = Max (Date ` set data)) data"
  assume h: "mset ?latest = {#a, b, c, d, e, f#} \<and>
    Country a = ''A'' \<and> Confirmed a = 1000 \<and> Country b = ''B'' \<and> Confirmed b = 500 \<and>
    Country c = ''C'' \<and> Confirmed c = 2000 \<and> Country d = ''D'' \<and> Confirmed d = 300 \<and>
    Country e = ''E'' \<and> Confirmed e = 100 \<and> Country f = ''F'' \<and> Confirmed f = 50"
  then have m: "mset ?latest = {#a, b, c, d, e, f#}" by (rule conjunct1)
  have "?latest \<noteq> []"
  proof
    assume "?latest = []"
    then have "mset ?latest = {#}" by (simp only: mset.simps)
    with m show False by (simp only: empty_not_add_mset add_mset_not_empty)
  qed
  then have "data \<noteq> []" by auto
  then have dm: "date_max data = Some (Max (Date ` set data))" by (rule date_max_eq)
  have srt: "sort_key (\<lambda>r. - Confirmed r) ?latest = [c, a, b, d, e, f]"
    using m h by (intro sort_of_six_rows) simp_all
  show "get_top_countries_by_cases data 5 None
      = [(''C'', 2000, Deaths c, Recovered c, Death_Rate c),
         (''A'', 1000, Deaths a, Recovered a, Death_Rate a),
         (''B'', 500, Deaths b, Recovered b, Death_Rate b),
         (''D'', 300, Deaths d, Recovered d, Death_Rate d),
         (''E'', 100, Deaths e, Recovered e, Death_Rate e)]"
    using h by (simp add: get_top_countries_by_cases_def nlargest_def dm srt)
qed

theorem top_five_by_confirmed_witness:
  "sample_snapshot \<noteq> [] \<and> Max (Date ` set sample_snapshot) = 2 \<and>
   get_top_countries_by_cases sample_snapshot 5 None
     = get_top_countries_by_cases sample_snapshot 5 (Some 2) \<and>
   get_top_countries_by_cases sample_snapshot 5 None
     = [(''C'', 2000, 30, 0, Fin 0), (''A'', 1000, 10, 0, Fin 0), (''B'', 500, 20, 0, Fin 0),
        (''D'', 300, 40, 0, Fin 0), (''E'', 100, 50, 0, Fin 0)]"
proof -
  have ne: "sample_snapshot \<noteq> []" by (simp add: sample_snapshot_def)
  have mx: "Max (Date ` set sample_snapshot) = 2"
    by (simp add: sample_snapshot_def snapshot_row_def merged_row_def)
  have latest: "mset (filter (\<lambda>r. Date r = Max (Date ` set sample_snapshot)) sample_snapshot)
      = {#snapshot_row ''A'' 1000 10, snapshot_row ''B'' 500 20, snapshot_row ''C'' 2000 30,
          snapshot_row ''D'' 300 40, snapshot_row ''E'' 100 50, snapshot_row ''F'' 50 60#}"
    unfolding mx by (simp add: sample_snapshot_def snapshot_row_def merged_row_def)
  note main = top_five_by_confirmed[of sample_snapshot 5
      "snapshot_row ''A'' 1000 10" "snapshot_row ''B'' 500 20" "snapshot_row ''C'' 2000 30"
      "snapshot_row ''D'' 300 40" "snapshot_row ''E'' 100 50" "snapshot_row ''F'' 50 60"]
  from main ne have default: "get_top_countries_by_cases sample_snapshot 5 None
     = get_top_countries_by_cases sample_snapshot 5 (Some (Max (Date ` set sample_snapshot)))"
    by blast
  from main latest have "get_top_countries_by_cases sample_snapshot 5 None
     = [(''C'', 2000, Deaths (snapshot_row ''C'' 2000 30), Recovered (snapshot_row ''C'' 2000 30),
           Death_Rate (snapshot_row ''C'' 2000 30)),
        (''A'', 1000, Deaths (snapshot_row ''A'' 1000 10), Recovered (snapshot_row ''A'' 1000 10),
           Death_Rate (snapshot_row ''A'' 1000 10)),
        (''B'', 500, Deaths (snapshot_row ''B'' 500 20), Recovered (snapshot_row ''B'' 500 20),
           Death_Rate (snapshot_row ''B'' 500 20)),
        (''D'', 300, Deaths (snapshot_row ''D'' 300 40), Recovered (snapshot_row ''D'' 300 40),
           Death_Rate (snapshot_row ''D'' 300 40)),
        (''E'', 100, Deaths (snapshot_row ''E'' 100 50), Recovered (snapshot_row ''E'' 100 50),
           Death_Rate (snapshot_row ''E'' 100 50))]"
    by (simp add: snapshot_row_def merged_row_def)
  then have rows: "get_top_countries_by_cases sample_snapshot 5 None
     = [(''C'', 2000, 30, 0, Fin 0), (''A'', 1000, 10, 0, Fin 0), (''B'', 500, 20, 0, Fin 0),
        (''D'', 300, 40, 0, Fin 0), (''E'', 100, 50, 0, Fin 0)]"
    by (simp add: snapshot_row_def merged_row_def)
  from ne mx default rows show ?thesis by (simp only: simp_thms)
qed

text \<open>
  Claim C8. \<^verbatim>\<open>get_country_time_series\<close> returns the rows of the table whose
  country is the given name, each as often as the table has it, in ascending order of
  date; for a name the table does not have it returns the empty table. The function has
  no error result.
\<close>

theorem time_series_of_country:
  "mset (get_country_time_series data country_name)
     = filter_mset (\<lambda>r. Country r = country_name) (mset data) \<and>
   sorted (map Date (get_country_time_series data country_name)) \<and>
   (country_name \<notin> Country ` set data \<longrightarrow> get_country_time_series data country_name = [])"
proof -
  have "country_name \<notin> Country ` set data \<Longrightarrow> filter (\<lambda>r. Country r = country_name) data = []"
    by (auto simp: filter_empty_conv)
  then show ?thesis by (auto simp: get_country_time_series_def)
qed

theorem time_series_of_country_witness:
  "''Q'' \<notin> Country ` set sample_merged \<and> get_country_time_series sample_merged ''Q'' = [] \<and>
   get_country_time_series sample_merged ''A'' = [merged_row ''A'' 1 900, merged_row ''A'' 2 1000]"
proof -
  have 1: "''Q'' \<notin> Country ` set sample_merged"
    by (simp add: sample_merged_def merged_row_def)
  have 2: "get_country_time_series sample_merged ''A'' = [merged_row ''A'' 1 900, merged_row ''A'' 2 1000]"
    by (simp add: get_country_time_series_def sample_merged_def merged_row_def)
  from time_series_of_country[of sample_merged "''Q''"] 1 2 show ?thesis by simp
qed

section \<open>Properties of the reshaper\<close>

lemma to_datetime_Inr:
  "to_datetime parse xs = Inr ys \<Longrightarrow>
     ys = map (\<lambda>m. (fst m, the (parse (fst (snd m))), snd (snd m))) xs \<and>
     (\<forall>m\<in>set xs. parse (fst (snd m)) \<noteq> None)"
proof (induction xs arbitrary: ys)
  case Nil
  then show ?case by simp
next
  case (Cons m xs)
  obtain r h v where m: "m = (r, h, v)" by (cases m) auto
  from Cons.prems obtain d rest' where d: "parse h = Some d"
    and rest: "to_datetime parse xs = Inr rest'" and ys: "ys = (r, d, v) # rest'"
    by (auto simp: m split: option.splits sum.splits)
  from Cons.IH[OF rest] d ys show ?case by (simp add: m)
qed

lemma sum_by_key:
  fixes f :: "'a \<Rightarrow> int"
  assumes "finite K"
  shows "kf ` set xs \<subseteq> K \<Longrightarrow>
     (\<Sum>k\<in>K. sum_list (map f (filter (\<lambda>x. kf x = k) xs))) = sum_list (map f xs)"
proof (induction xs)
  case Nil
  show ?case by simp
next
  case (Cons x xs)
  have "(\<Sum>k\<in>K. sum_list (map f (filter (\<lambda>y. kf y = k) (x # xs))))
      = (\<Sum>k\<in>K. (if kf x = k then f x else 0) + sum_list (map f (filter (\<lambda>y. kf y = k) xs)))"
    by (rule sum.cong) simp_all
  also have "\<dots> = (\<Sum>k\<in>K. if kf x = k then f x else 0)
                   + (\<Sum>k\<in>K. sum_list (map f (filter (\<lambda>y. kf y = k) xs)))"
    by (rule sum.distrib)
  also have "(\<Sum>k\<in>K. if kf x = k then f x else 0) = f x"
    using assms Cons.prems by (simp add: sum.delta')
  also have "(\<Sum>k\<in>K. sum_list (map f (filter (\<lambda>y. kf y = k) xs))) = sum_list (map f xs)"
    using Cons by simp
  finally show ?case by simp
qed

lemma wrap64_id: "- (2 ^ 63) \<le> n \<Longrightarrow> n < 2 ^ 63 \<Longrightarrow> wrap64 n = n"
  by (simp add: wrap64_def)

lemma abs_sum_filter_le:
  fixes f :: "'a \<Rightarrow> int"
  shows "\<bar>sum_list (map f (filter P xs))\<bar> \<le> sum_list (map (\<lambda>x. \<bar>f x\<bar>) xs)"
proof (induction xs)
  case Nil
  show ?case by simp
next
  case (Cons x xs)
  have "0 \<le> sum_list (map (\<lambda>x. \<bar>f x\<bar>) xs)" by (rule sum_list_nonneg) auto
  with Cons show ?case by auto
qed

lemma groupby_agg_keys: "map key (groupby_agg ys) = sort (remdups (map group_key ys))"
  by (simp add: groupby_agg_def key_def Let_def o_def)

lemma groupby_agg_distinct: "distinct (map key (groupby_agg ys))"
  by (simp add: groupby_agg_keys)

lemma groupby_agg_sum:
  assumes bound: "sum_list (map (\<lambda>m. \<bar>snd (snd m)\<bar>) (filter (\<lambda>m. fst (snd m) = D) ys)) < 2 ^ 63"
  shows "sum_list (map Cases (filter (\<lambda>r. Date r = D) (groupby_agg ys)))
     = sum_list (map (\<lambda>m. snd (snd m)) (filter (\<lambda>m. fst (snd m) = D) ys))"
proof -
  let ?ks = "sort (remdups (map group_key ys))"
  let ?ks' = "filter (\<lambda>k. snd k = D) ?ks"
  let ?ysD = "filter (\<lambda>m. fst (snd m) = D) ys"
  let ?g = "\<lambda>k. sum_list (map (\<lambda>m. snd (snd m)) (filter (\<lambda>m. group_key m = k) ?ysD))"
  have "map Cases (filter (\<lambda>r. Date r = D) (groupby_agg ys))
      = map (\<lambda>k. wrap64 (sum_list (map (\<lambda>m. snd (snd m)) (filter (\<lambda>m. group_key m = k) ys)))) ?ks'"
    by (simp add: groupby_agg_def filter_map o_def Let_def)
  also have "\<dots> = map ?g ?ks'"
  proof (rule map_cong[OF refl])
    fix k assume "k \<in> set ?ks'"
    then have "snd k = D" by simp
    then have same: "filter (\<lambda>m. group_key m = k) ?ysD = filter (\<lambda>m. group_key m = k) ys"
      by (auto simp: group_key_def intro!: filter_cong)
    have "\<bar>?g k\<bar> \<le> sum_list (map (\<lambda>m. \<bar>snd (snd m)\<bar>) ?ysD)"
      by (rule abs_sum_filter_le)
    with bound have "- (2 ^ 63) \<le> ?g k" "?g k < 2 ^ 63" by linarith+
    then have "wrap64 (?g k) = ?g k" by (rule wrap64_id)
    then show "wrap64 (sum_list (map (\<lambda>m. snd (snd m)) (filter (\<lambda>m. group_key m = k) ys))) = ?g k"
      by (simp only: same)
  qed
  finally have "sum_list (map Cases (filter (\<lambda>r. Date r = D) (groupby_agg ys)))
      = sum_list (map ?g ?ks')" by simp
  also have "\<dots> = sum ?g (set ?ks')"
    by (rule sum_list_distinct_conv_sum_set) simp
  also have "\<dots> = sum_list (map (\<lambda>m. snd (snd m)) ?ysD)"
    by (rule sum_by_key) (auto simp: group_key_def)
  finally show ?thesis .
qed

lemma melt_sum:
  fixes g :: "int \<Rightarrow> int"
  assumes "table_ok df"
  shows "sum_list (map (\<lambda>m. g (snd (snd m))) (filter (\<lambda>m. parse (fst (snd m)) = Some D) (melt df)))
     = sum_list (map g (concat (map snd (filter (\<lambda>col. parse (fst col) = Some D) (date_cols df)))))"
proof -
  have "list_all (\<lambda>col. length (snd col) = length ids) cs \<Longrightarrow>
     sum_list (map (\<lambda>m. g (snd (snd m))) (filter (\<lambda>m. parse (fst (snd m)) = Some D)
        (concat (map (\<lambda>col. map (\<lambda>rv. (fst rv, fst col, snd rv)) (zip ids (snd col))) cs))))
     = sum_list (map g (concat (map snd (filter (\<lambda>col. parse (fst col) = Some D) cs))))"
    for ids :: "raw_row list" and cs :: "(string \<times> int list) list"
  proof (induction cs)
    case Nil
    show ?case by simp
  next
    case (Cons col cs)
    have len: "length (snd col) = length ids" using Cons.prems by simp
    have "map snd (filter (\<lambda>m. parse (fst col) = Some D) (zip ids (snd col)))
        = (if parse (fst col) = Some D then snd col else [])"
      using len by simp
    then have "map g (map snd (filter (\<lambda>m. parse (fst col) = Some D) (zip ids (snd col))))
        = (if parse (fst col) = Some D then map g (snd col) else [])"
      by simp
    then have "map (\<lambda>m. g (snd (snd m))) (filter (\<lambda>m. parse (fst (snd m)) = Some D)
            (map (\<lambda>rv. (fst rv, fst col, snd rv)) (zip ids (snd col))))
        = (if parse (fst col) = Some D then map g (snd col) else [])"
      by (simp add: filter_map o_def)
    with Cons show ?case by simp
  qed
  from this[of "id_rows df" "date_cols df"] assms show ?thesis
    by (simp add: melt_def table_ok_def)
qed

lemma first_valid_append:
  "first_valid (xs @ ys) = (if first_valid xs = NaN then first_valid ys else first_valid xs)"
  by (induction xs) simp_all

lemma first_valid_copies:
  "first_valid (concat (map (\<lambda>c. if P c then L else []) cs))
     = (if \<exists>c\<in>set cs. P c then first_valid L else NaN)"
  by (induction cs) (auto simp: first_valid_append)

lemma melt_group_column:
  assumes "table_ok df"
  shows "map (\<lambda>m. F (fst m))
           (filter (\<lambda>m. Country (fst m) = c \<and> parse (fst (snd m)) = Some D) (melt df))
     = concat (map (\<lambda>col. if parse (fst col) = Some D
                           then map F (filter (\<lambda>i. Country i = c) (id_rows df)) else [])
         (date_cols df))"
proof -
  have "list_all (\<lambda>col. length (snd col) = length ids) cs \<Longrightarrow>
     map (\<lambda>m. F (fst m)) (filter (\<lambda>m. Country (fst m) = c \<and> parse (fst (snd m)) = Some D)
        (concat (map (\<lambda>col. map (\<lambda>rv. (fst rv, fst col, snd rv)) (zip ids (snd col))) cs)))
     = concat (map (\<lambda>col. if parse (fst col) = Some D
                           then map F (filter (\<lambda>i. Country i = c) ids) else []) cs)"
    for ids :: "raw_row list" and cs :: "(string \<times> int list) list"
  proof (induction cs)
    case Nil
    show ?case by simp
  next
    case (Cons col cs)
    have len: "length (snd col) = length ids" using Cons.prems by simp
    have "map fst (filter (\<lambda>rv. Country (fst rv) = c) (zip ids (snd col)))
        = filter (\<lambda>i. Country i = c) ids"
      using len filter_map[of "\<lambda>i. Country i = c" fst "zip ids (snd col)"]
      by (simp add: o_def)
    then have "map F (map fst (filter (\<lambda>rv. Country (fst rv) = c) (zip ids (snd col))))
        = map F (filter (\<lambda>i. Country i = c) ids)" by (rule arg_cong)
    then have "map (\<lambda>rv. F (fst rv)) (filter (\<lambda>rv. Country (fst rv) = c) (zip ids (snd col)))
        = map F (filter (\<lambda>i. Country i = c) ids)"
      by (simp add: o_def)
    then have "map (\<lambda>m. F (fst m)) (filter (\<lambda>m. Country (fst m) = c \<and> parse (fst (snd m)) = Some D)
            (map (\<lambda>rv. (fst rv, fst col, snd rv)) (zip ids (snd col))))
        = (if parse (fst col) = Some D then map F (filter (\<lambda>i. Country i = c) ids) else [])"
      by (simp add: filter_map o_def)
    with Cons show ?case by simp
  qed
  from this[of "id_rows df" "date_cols df"] assms show ?thesis
    by (simp add: melt_def table_ok_def)
qed


lemma groupby_agg_row:
  assumes "r \<in> set (groupby_agg ys)"
  shows "\<exists>m\<in>set ys. group_key m = (Country r, Date r)"
    and "Lat r = first_valid (map (\<lambda>m. Lat (fst m)) (filter (\<lambda>m. group_key m = (Country r, Date r)) ys))"
    and "Long r = first_valid (map (\<lambda>m. Long (fst m)) (filter (\<lambda>m. group_key m = (Country r, Date r)) ys))"
  using assms by (auto simp: groupby_agg_def Let_def)

lemma preprocess_table_group:
  assumes ok: "table_ok df" and res: "preprocess_table parse df = Inr country_data"
    and r: "r \<in> set country_data"
  shows "first_valid (map (\<lambda>m. F (fst m))
            (filter (\<lambda>m. group_key m = (Country r, Date r))
               (map (\<lambda>m. (fst m, the (parse (fst (snd m))), snd (snd m))) (melt df))))
         = first_valid (map F (filter (\<lambda>i. Country i = Country r) (id_rows df)))"
proof -
  let ?conv = "\<lambda>m. (fst m, the (parse (fst (snd m))), snd (snd m))"
  from res obtain ys where td: "to_datetime parse (melt df) = Inr ys"
    and cd: "country_data = groupby_agg ys"
    by (auto simp: preprocess_table_def split: sum.splits)
  from to_datetime_Inr[OF td] have ys: "ys = map ?conv (melt df)"
    and parsed: "\<forall>m\<in>set (melt df). parse (fst (snd m)) \<noteq> None" by simp_all
  have filt: "filter (\<lambda>m. group_key m = (Country r, Date r)) (map ?conv (melt df))
      = map ?conv (filter (\<lambda>m. Country (fst m) = Country r \<and> parse (fst (snd m)) = Some (Date r)) (melt df))"
    unfolding filter_map o_def
    by (rule arg_cong[where f = "map ?conv"], rule filter_cong[OF refl])
       (use parsed in \<open>auto simp: group_key_def\<close>)
  from groupby_agg_row(1)[OF r[unfolded cd]] obtain m where m: "m \<in> set ys"
    and km: "group_key m = (Country r, Date r)" by blast
  from m obtain m0 where m0: "m0 \<in> set (melt df)" and mm: "m = ?conv m0" by (auto simp: ys)
  from m0 obtain col where col: "col \<in> set (date_cols df)" and h: "fst (snd m0) = fst col"
    by (auto simp: melt_def)
  from parsed m0 km mm h have "parse (fst col) = Some (Date r)" by (auto simp: group_key_def)
  with col have ex: "\<exists>col\<in>set (date_cols df). parse (fst col) = Some (Date r)" by blast
  have "map (\<lambda>m. F (fst m)) (filter (\<lambda>m. group_key m = (Country r, Date r)) (map ?conv (melt df)))
      = map (\<lambda>m. F (fst m)) (filter (\<lambda>m. Country (fst m) = Country r \<and> parse (fst (snd m)) = Some (Date r)) (melt df))"
    by (simp add: filt o_def)
  also have "\<dots> = concat (map (\<lambda>col. if parse (fst col) = Some (Date r)
                           then map F (filter (\<lambda>i. Country i = Country r) (id_rows df)) else [])
         (date_cols df))"
    by (rule melt_group_column[OF ok])
  finally show ?thesis using ex by (simp add: first_valid_copies)
qed

text \<open>
  The sums are 64-bit sums: two sub-locations with \<open>2^62\<close> cases each give their
  country \<open>-2^63\<close> cases. The conservation of the totals is therefore stated for
  the dates at which the raw counts are small enough for no sum to wrap.
\<close>

lemma group_sum_wraps:
  "preprocess_table sample_parse wrap_table
     = Inr [\<lparr>Country = ''CA'', Lat = Fin 1, Long = Fin 2, Date = 22, Cases = - (2 ^ 63)\<rparr>]"
  by code_simp

text \<open>
  Claim C5, as stated: the latitude and longitude of a country are those of the first
  sub-location row of its group. The aggregation \<^verbatim>\<open>"first"\<close> skips missing values:
  in the table below the first row of \<open>CA\<close> has no latitude, and the country gets the
  latitude 53 of its second row (and the longitude 5 of its first).
\<close>

theorem first_coordinate_skips_missing:
  "hd (id_rows sample_table)
     = \<lparr>Country = ''CA'', Lat = NaN, Long = Fin 5, Province_State = Some ''X''\<rparr> \<and>
   preprocess_table sample_parse sample_table
     = Inr [\<lparr>Country = ''AB'', Lat = Fin 1, Long = Fin 2, Date = 22, Cases = 2\<rparr>,
            \<lparr>Country = ''AB'', Lat = Fin 1, Long = Fin 2, Date = 23, Cases = 20\<rparr>,
            \<lparr>Country = ''CA'', Lat = Fin 53, Long = Fin 5, Date = 22, Cases = 4\<rparr>,
            \<lparr>Country = ''CA'', Lat = Fin 53, Long = Fin 5, Date = 23, Cases = 40\<rparr>]"
  by code_simp

text \<open>
  Claim C5, amended. For a rectangular raw table that \<^verbatim>\<open>preprocess_data\<close> reshapes
  without error: the result has one row per country and date; for every date at which
  the absolute values of the raw counts add up to less than \<open>2^63\<close> (so that no
  64-bit sum wraps), the sum of \<open>Cases\<close> over the country rows of that date equals the
  sum of all values of the raw date columns whose header is that date; and the latitude
  of each country row is the first latitude that is not missing among the rows of that
  country in table order (NaN when all are missing), and likewise, and independently,
  the longitude. It is the value of the country's first row whenever that row has one.
\<close>

theorem reshape_conserves_totals:
  assumes "table_ok df" and "preprocess_table parse df = Inr country_data"
  shows "distinct (map key country_data) \<and>
         (\<forall>d. sum_list (map abs (concat (map snd
                   (filter (\<lambda>col. parse (fst col) = Some d) (date_cols df))))) < 2 ^ 63 \<longrightarrow>
               sum_list (map Cases (filter (\<lambda>r. Date r = d) country_data))
               = sum_list (concat (map snd (filter (\<lambda>col. parse (fst col) = Some d) (date_cols df))))) \<and>
         (\<forall>r\<in>set country_data.
            Lat r = first_valid (map Lat (filter (\<lambda>i. Country i = Country r) (id_rows df))) \<and>
            Long r = first_valid (map Long (filter (\<lambda>i. Country i = Country r) (id_rows df))) \<and>
            (\<forall>i rest. filter (\<lambda>i. Country i = Country r) (id_rows df) = i # rest \<longrightarrow>
               (Lat i \<noteq> NaN \<longrightarrow> Lat r = Lat i) \<and> (Long i \<noteq> NaN \<longrightarrow> Long r = Long i)))"
proof (intro conjI allI ballI impI)
  from assms(2) obtain ys where td: "to_datetime parse (melt df) = Inr ys"
    and cd: "country_data = groupby_agg ys"
    by (auto simp: preprocess_table_def split: sum.splits)
  from to_datetime_Inr[OF td]
  have ys: "ys = map (\<lambda>m. (fst m, the (parse (fst (snd m))), snd (snd m))) (melt df)"
    and parsed: "\<forall>m\<in>set (melt df). parse (fst (snd m)) \<noteq> None" by simp_all
  show "distinct (map key country_data)"
    unfolding cd by (rule groupby_agg_distinct)
  {
    fix d
    assume bound: "sum_list (map abs (concat (map snd
                   (filter (\<lambda>col. parse (fst col) = Some d) (date_cols df))))) < 2 ^ 63"
    have filt: "filter (\<lambda>m. the (parse (fst (snd m))) = d) (melt df)
        = filter (\<lambda>m. parse (fst (snd m)) = Some d) (melt df)"
      by (rule filter_cong[OF refl]) (use parsed in auto)
    then have to_melt: "sum_list (map (\<lambda>m. g (snd (snd m))) (filter (\<lambda>m. fst (snd m) = d) ys))
        = sum_list (map (\<lambda>m. g (snd (snd m))) (filter (\<lambda>m. parse (fst (snd m)) = Some d) (melt df)))"
      for g :: "int \<Rightarrow> int"
      by (simp add: ys filter_map o_def)
    have "sum_list (map (\<lambda>m. \<bar>snd (snd m)\<bar>) (filter (\<lambda>m. fst (snd m) = d) ys)) < 2 ^ 63"
      using bound to_melt[of abs] melt_sum[OF assms(1), of abs parse d] by simp
    then have "sum_list (map Cases (filter (\<lambda>r. Date r = d) (groupby_agg ys)))
        = sum_list (map (\<lambda>m. snd (snd m)) (filter (\<lambda>m. fst (snd m) = d) ys))"
      by (rule groupby_agg_sum)
    then show "sum_list (map Cases (filter (\<lambda>r. Date r = d) country_data))
               = sum_list (concat (map snd (filter (\<lambda>col. parse (fst col) = Some d) (date_cols df))))"
      using to_melt[of "\<lambda>v. v"] melt_sum[OF assms(1), of "\<lambda>v. v" parse d] by (simp add: cd)
  }
  {
    fix r assume r: "r \<in> set country_data"
    show lat: "Lat r = first_valid (map Lat (filter (\<lambda>i. Country i = Country r) (id_rows df)))"
      using groupby_agg_row(2)[OF r[unfolded cd]] preprocess_table_group[OF assms r, of Lat]
      by (simp add: ys)
    show long: "Long r = first_valid (map Long (filter (\<lambda>i. Country i = Country r) (id_rows df)))"
      using groupby_agg_row(3)[OF r[unfolded cd]] preprocess_table_group[OF assms r, of Long]
      by (simp add: ys)
    fix i rest
    assume "filter (\<lambda>i. Country i = Country r) (id_rows df) = i # rest"
    then show "Lat i \<noteq> NaN \<Longrightarrow> Lat r = Lat i" "Long i \<noteq> NaN \<Longrightarrow> Long r = Long i"
      by (simp_all add: lat long)
  }
qed

theorem reshape_conserves_totals_witness:
  "table_ok sample_table \<and>
   preprocess_table sample_parse sample_table = Inr sample_long \<and>
   distinct (map key sample_long) \<and>
   sum_list (map abs (concat (map snd
     (filter (\<lambda>col. sample_parse (fst col) = Some 23) (date_cols sample_table))))) < 2 ^ 63 \<and>
   sum_list (map Cases (filter (\<lambda>r. Date r = 23) sample_long)) = 10 + 20 + 30 \<and>
   first_valid (map Lat (filter (\<lambda>i. Country i = ''CA'') (id_rows sample_table))) = Fin 53"
proof -
  have ok: "table_ok sample_table" by (simp add: table_ok_def sample_table_def)
  have res: "preprocess_table sample_parse sample_table = Inr sample_long"
    by code_simp
  note main = reshape_conserves_totals[OF ok res]
  have bound: "sum_list (map abs (concat (map snd
     (filter (\<lambda>col. sample_parse (fst col) = Some 23) (date_cols sample_table))))) < 2 ^ 63"
    by (simp add: sample_table_def sample_parse_def)
  from main have dist: "distinct (map key sample_long)" by (rule conjunct1)
  from main bound have "sum_list (map Cases (filter (\<lambda>r. Date r = 23) sample_long))
      = sum_list (concat (map snd (filter (\<lambda>col. sample_parse (fst col) = Some 23)
                                      (date_cols sample_table))))"
    by blast
  also have "\<dots> = 10 + 20 + 30"
    by (simp add: sample_table_def sample_parse_def)
  finally have total: "sum_list (map Cases (filter (\<lambda>r. Date r = 23) sample_long)) = 10 + 20 + 30" .
  have "first_valid (map Lat (filter (\<lambda>i. Country i = ''CA'') (id_rows sample_table))) = Fin 53"
    by (simp add: sample_table_def)
  with ok res dist bound total show ?thesis by (intro conjI)
qed

section \<open>Properties of the loader\<close>

lemma map_of_load_types:
  "map_of (load_types data_dir ts) u =
     (if u \<in> set ts
      then (case filter (\<lambda>f. startswith (fst f) (u @ ''_time_series'')) data_dir of
              [] \<Rightarrow> None | f # _ \<Rightarrow> Some (snd f))
      else None)"
  by (induction ts) (auto split: list.splits)

lemma map_of_load_data:
  "map_of (load_data data_dir) u =
     (if u \<in> {''confirmed'', ''deaths'', ''recovered''}
      then (case filter (\<lambda>f. startswith (fst f) (u @ ''_time_series'')) data_dir of
              [] \<Rightarrow> None | f # _ \<Rightarrow> Some (snd f))
      else None)"
  unfolding load_data_def map_of_load_types by simp

lemma preprocess_data_Inr:
  "preprocess_data parse data = Inr processed \<Longrightarrow>
     list_all2 (\<lambda>raw long. fst long = fst raw \<and> preprocess_table parse (snd raw) = Inr (snd long))
       data processed"
proof (induction data arbitrary: processed)
  case Nil
  then show ?case by simp
next
  case (Cons p data)
  obtain data_type df where p: "p = (data_type, df)" by (cases p) auto
  from Cons.prems obtain cd rest where "preprocess_table parse df = Inr cd"
    "preprocess_data parse data = Inr rest" "processed = (data_type, cd) # rest"
    by (auto simp: p split: sum.splits)
  with Cons.IH[of rest] show ?case by (simp add: p)
qed

lemma preprocess_data_returns:
  "\<forall>raw\<in>set data. \<exists>long. preprocess_table parse (snd raw) = Inr long \<Longrightarrow>
     \<exists>processed. preprocess_data parse data = Inr processed"
proof (induction data)
  case Nil
  show ?case by simp
next
  case (Cons p data)
  obtain data_type df where p: "p = (data_type, df)" by (cases p) auto
  from Cons.prems obtain long where "preprocess_table parse df = Inr long" by (auto simp: p)
  moreover from Cons obtain rest where "preprocess_data parse data = Inr rest" by auto
  ultimately show ?case by (simp add: p)
qed

lemma preprocess_data_keys:
  assumes "preprocess_data parse data = Inr processed"
  shows "map fst processed = map fst data"
proof -
  from preprocess_data_Inr[OF assms]
  have "list_all2 (\<lambda>raw long. fst long = fst raw) data processed"
    by (rule list_all2_mono) simp
  then show ?thesis
    by (induction rule: list_all2_induct) simp_all
qed

lemma get_merged_data_missing:
  assumes "t \<in> {''confirmed'', ''deaths'', ''recovered''}" and "map_of processed t = None"
  shows "\<exists>k\<in>{''confirmed'', ''deaths'', ''recovered''}.
           map_of processed k = None \<and> get_merged_data processed = Inl (KeyError k)"
proof (cases "map_of processed ''confirmed''")
  case None
  then show ?thesis by (simp add: get_merged_data_def getitem_def)
next
  case c: (Some confirmed)
  show ?thesis
  proof (cases "map_of processed ''deaths''")
    case None
    with c show ?thesis by (simp add: get_merged_data_def getitem_def)
  next
    case d: (Some deaths)
    with c assms have "map_of processed ''recovered'' = None" by auto
    with c d show ?thesis by (simp add: get_merged_data_def getitem_def)
  qed
qed

text \<open>
  Claim C9, as stated: with the file of one metric absent, \<^verbatim>\<open>get_merged_data\<close>
  proceeds on the other metrics. It reads all three keys of the dict (lines 87 to 89):
  on the directory below, which has no deaths file, loading and reshaping succeed on
  the two metrics present and the merge raises \<^verbatim>\<open>KeyError\<close>.
\<close>

theorem merge_needs_all_three_metrics:
  "load_data sample_dir = [(''confirmed'', sample_table), (''recovered'', sample_table)] \<and>
   preprocess_data sample_parse (load_data sample_dir)
     = Inr [(''confirmed'', sample_long), (''recovered'', sample_long)] \<and>
   get_merged_data [(''confirmed'', sample_long), (''recovered'', sample_long)]
     = Inl (KeyError ''deaths'')"
  by code_simp

text \<open>
  Claim C9, amended. When the data directory exists and has no file for a metric,
  \<^verbatim>\<open>load_data\<close> returns a dict without that metric (it has no error result) and
  with, for each other metric, the first file found for it; \<^verbatim>\<open>preprocess_data\<close>
  returns whenever each table that was loaded reshapes, however many there are, and
  what it returns has the same keys and, for each key, the reshaped table; and
  \<^verbatim>\<open>get_merged_data\<close> on the result raises \<^verbatim>\<open>KeyError\<close> for a metric that is
  absent: it needs all three.
\<close>

theorem missing_metric_omitted:
  assumes "t \<in> {''confirmed'', ''deaths'', ''recovered''}"
    and "filter (\<lambda>f. startswith (fst f) (t @ ''_time_series'')) data_dir = []"
  shows "map_of (load_data data_dir) t = None \<and>
         (\<forall>u\<in>{''confirmed'', ''deaths'', ''recovered''}.
            map_of (load_data data_dir) u =
              (case filter (\<lambda>f. startswith (fst f) (u @ ''_time_series'')) data_dir of
                 [] \<Rightarrow> None | f # _ \<Rightarrow> Some (snd f))) \<and>
         ((\<forall>raw\<in>set (load_data data_dir). \<exists>long. preprocess_table parse (snd raw) = Inr long) \<longrightarrow>
            (\<exists>processed. preprocess_data parse (load_data data_dir) = Inr processed)) \<and>
         (\<forall>processed. preprocess_data parse (load_data data_dir) = Inr processed \<longrightarrow>
            list_all2 (\<lambda>raw long. fst long = fst raw \<and>
                         preprocess_table parse (snd raw) = Inr (snd long))
              (load_data data_dir) processed \<and>
            (\<exists>k\<in>{''confirmed'', ''deaths'', ''recovered''}.
               map_of processed k = None \<and> get_merged_data processed = Inl (KeyError k)))"
proof (intro conjI ballI allI impI)
  show none: "map_of (load_data data_dir) t = None"
    using assms by (simp add: map_of_load_data)
  show "map_of (load_data data_dir) u =
              (case filter (\<lambda>f. startswith (fst f) (u @ ''_time_series'')) data_dir of
                 [] \<Rightarrow> None | f # _ \<Rightarrow> Some (snd f))"
    if "u \<in> {''confirmed'', ''deaths'', ''recovered''}" for u
    using that by (simp add: map_of_load_data)
  show "\<exists>processed. preprocess_data parse (load_data data_dir) = Inr processed"
    if "\<forall>raw\<in>set (load_data data_dir). \<exists>long. preprocess_table parse (snd raw) = Inr long"
    using that by (rule preprocess_data_returns)
  fix processed assume p: "preprocess_data parse (load_data data_dir) = Inr processed"
  show "list_all2 (\<lambda>raw long. fst long = fst raw \<and>
                         preprocess_table parse (snd raw) = Inr (snd long))
              (load_data data_dir) processed"
    using p by (rule preprocess_data_Inr)
  from none have "t \<notin> fst ` set (load_data data_dir)" by (simp add: map_of_eq_None_iff)
  then have "t \<notin> fst ` set processed"
    using preprocess_data_keys[OF p] by (metis set_map)
  then have "map_of processed t = None" by (simp add: map_of_eq_None_iff)
  with assms(1) show "\<exists>k\<in>{''confirmed'', ''deaths'', ''recovered''}.
               map_of processed k = None \<and> get_merged_data processed = Inl (KeyError k)"
    by (rule get_merged_data_missing)
qed

theorem missing_metric_omitted_witness:
  "''deaths'' \<in> {''confirmed'', ''deaths'', ''recovered''} \<and>
   filter (\<lambda>f. startswith (fst f) (''deaths'' @ ''_time_series'')) sample_dir = [] \<and>
   load_data sample_dir = [(''confirmed'', sample_table), (''recovered'', sample_table)] \<and>
   preprocess_table sample_parse sample_table = Inr sample_long \<and>
   map_of (load_data sample_dir) ''deaths'' = None \<and>
   (\<exists>processed. preprocess_data sample_parse (load_data sample_dir) = Inr processed) \<and>
   preprocess_data sample_parse (load_data sample_dir)
     = Inr [(''confirmed'', sample_long), (''recovered'', sample_long)] \<and>
   get_merged_data [(''confirmed'', sample_long), (''recovered'', sample_long)]
     = Inl (KeyError ''deaths'')"
proof -
  have t: "''deaths'' \<in> {''confirmed'', ''deaths'', ''recovered''}" by simp
  have f: "filter (\<lambda>f. startswith (fst f) (''deaths'' @ ''_time_series'')) sample_dir = []"
    by (simp add: sample_dir_def startswith_def)
  have l: "load_data sample_dir = [(''confirmed'', sample_table), (''recovered'', sample_table)]"
    by code_simp
  have r: "preprocess_table sample_parse sample_table = Inr sample_long"
    by code_simp
  have p: "preprocess_data sample_parse (load_data sample_dir)
     = Inr [(''confirmed'', sample_long), (''recovered'', sample_long)]"
    by (simp add: l r)
  have g: "get_merged_data [(''confirmed'', sample_long), (''recovered'', sample_long)]
     = Inl (KeyError ''deaths'')"
    by (simp add: get_merged_data_def getitem_def)
  note main = missing_metric_omitted[OF t f, of sample_parse]
  from main have none: "map_of (load_data sample_dir) ''deaths'' = None"
    by (rule conjunct1)
  have "\<forall>raw\<in>set (load_data sample_dir). \<exists>long. preprocess_table sample_parse (snd raw) = Inr long"
    by (simp add: l r)
  with main have ex: "\<exists>processed. preprocess_data sample_parse (load_data sample_dir) = Inr processed"
    by (elim conjE) (erule mp)
  from t f l r none ex p g show ?thesis by (intro conjI)
qed

section \<open>Properties of \<^verbatim>\<open>calculate_growth_rates\<close>\<close>

subsection \<open>Sorting through the permutation\<close>

lemma insort_key_cong_set:
  "\<forall>p\<in>set (x # ys). f p = f' p \<Longrightarrow> insort_key f x ys = insort_key f' x ys"
  by (induction ys) auto

lemma sort_key_cong_set:
  "\<forall>p\<in>set xs. f p = f' p \<Longrightarrow> sort_key f xs = sort_key f' xs"
proof (induction xs)
  case Nil
  show ?case by simp
next
  case (Cons x xs)
  then have "sort_key f xs = sort_key f' xs" by simp
  moreover have "insort_key f x (sort_key f' xs) = insort_key f' x (sort_key f' xs)"
    by (rule insort_key_cong_set) (use Cons.prems in auto)
  ultimately show ?case by simp
qed

lemma take_argsort: "map (nth xs) (argsort (map f xs)) = sort_key f xs"
proof -
  let ?ps = "zip (map f xs) [0..<length xs]"
  have keys: "\<forall>p\<in>set ?ps. fst p = f (xs ! snd p)"
    by (auto simp: set_zip)
  have "map (nth xs) (argsort (map f xs)) = map (\<lambda>p. xs ! snd p) (sort_key fst ?ps)"
    by (simp add: argsort_def o_def)
  also have "\<dots> = map (\<lambda>p. xs ! snd p) (sort_key (\<lambda>p. f (xs ! snd p)) ?ps)"
    using sort_key_cong_set[OF keys] by simp
  also have "\<dots> = sort_key f (map (\<lambda>p. xs ! snd p) ?ps)"
    by (rule map_sort_key)
  also have "map (\<lambda>p. xs ! snd p) ?ps = map (nth xs) (map snd ?ps)"
    unfolding map_map o_def ..
  also have "map snd ?ps = [0..<length xs]" by simp
  also have "map (nth xs) [0..<length xs] = xs" by (rule map_nth)
  finally show ?thesis .
qed

lemma rows_sorted_frame: "rows (sorted_frame f) = sort_key Date (rows f)"
  by (simp add: sorted_frame_def Let_def take_argsort)

lemma derived_sorted_frame_Nil: "derived f = [] \<Longrightarrow> derived (sorted_frame f) = []"
  by (simp add: sorted_frame_def Let_def)

subsection \<open>The call on the store\<close>


lemma setitem_fresh:
  "setitem (h @ [f]) (length h) name vals = h @ [f\<lparr>derived := AList.update name vals (derived f)\<rparr>]"
  by (simp add: setitem_def)

lemma getcol_fresh:
  "getcol (h @ [f]) (length h) name =
     (case map_of (derived f) name of None \<Rightarrow> Inl (KeyError name) | Some vals \<Rightarrow> Inr vals)"
  by (simp add: getcol_def)

lemma calculate_growth_rates_result:
  "\<exists>f. calculate_growth_rates h a = Inr (h @ [f], length h) \<and>
       rows f = sort_key Date (rows (h ! a)) \<and>
       map_of (derived f) ''Daily_Confirmed'' = Some (diff (map Confirmed (rows f))) \<and>
       map_of (derived f) ''Daily_Deaths'' = Some (diff (map Deaths (rows f))) \<and>
       map_of (derived f) ''Confirmed_Growth_Rate''
         = Some (map (\<lambda>v. round2 (fmul v 100)) (pct_change (map Confirmed (rows f)))) \<and>
       map_of (derived f) ''Death_Growth_Rate''
         = Some (map (\<lambda>v. round2 (fmul v 100)) (pct_change (map Deaths (rows f)))) \<and>
       map_of (derived f) ''Confirmed_MA_7''
         = Some (rolling_mean 7 (diff (map Confirmed (rows f)))) \<and>
       map_of (derived f) ''Deaths_MA_7''
         = Some (rolling_mean 7 (diff (map Deaths (rows f))))"
  unfolding calculate_growth_rates_def sort_values_def
  by (simp add: Let_def setitem_fresh getcol_fresh bind_def update_conv' rows_sorted_frame)


subsection \<open>The daily differences and their moving average\<close>

lemma length_diff: "length (diff xs) = length xs"
  by (cases xs) (simp_all add: diff_def)

lemma diff_nth_0: "xs \<noteq> [] \<Longrightarrow> diff xs ! 0 = NaN"
  by (cases xs) (simp_all add: diff_def)

lemma diff_nth:
  assumes "1 \<le> i" "i < length xs"
  shows "diff xs ! i = Fin (of_int (xs ! i - xs ! (i - 1)))"
proof -
  from assms obtain x rest where xs: "xs = x # rest" by (cases xs) auto
  from assms obtain j where i: "i = Suc j" by (cases i) auto
  from assms have j: "j < length rest" by (simp add: xs i)
  then have "diff xs ! i = Fin (of_int (rest ! j - (x # rest) ! j))"
    by (simp add: diff_def xs i)
  then show ?thesis by (simp add: xs i)
qed

lemma diff_map_nth:
  assumes "1 \<le> i" "i < length rs"
  shows "diff (map col rs) ! i = Fin (of_int (col (rs ! i) - col (rs ! (i - 1))))"
proof -
  from assms have "i - 1 < length rs" by simp
  with assms diff_nth[of i "map col rs"] show ?thesis by simp
qed

lemma length_rolling_mean: "length (rolling_mean w vs) = length vs"
  by (simp add: rolling_mean_def)

lemma rolling_mean_nth:
  "i < length vs \<Longrightarrow> rolling_mean w vs ! i =
     (if i + 1 < w then NaN else window_mean (take w (drop (i + 1 - w) vs)))"
  by (simp add: rolling_mean_def)

lemma fin_vals_map_Fin: "fin_vals (map Fin qs) = Some qs"
  by (induction qs) simp_all

lemma window_mean_map_Fin:
  "window_mean (map Fin qs) = Fin (sum_list qs / of_nat (length qs))"
  by (simp add: window_mean_def fin_vals_map_Fin)

lemma window_mean_NaN_first: "window_mean (NaN # vs) = NaN"
  by (simp add: window_mean_def)

lemma rolling_mean_diff_undefined:
  assumes "i < 7" "i < length xs"
  shows "rolling_mean 7 (diff xs) ! i = NaN"
proof (cases "i + 1 < 7")
  case True
  with assms show ?thesis by (simp add: rolling_mean_nth length_diff)
next
  case False
  with assms have i: "i = 6" by simp
  from assms obtain x rest where xs: "xs = x # rest" by (cases xs) auto
  have "take 7 (diff xs) = NaN # take 6 (map (\<lambda>p. Fin (of_int (snd p - fst p))) (zip xs rest))"
    by (simp add: diff_def xs)
  with assms show ?thesis
    by (simp add: rolling_mean_nth length_diff i window_mean_NaN_first)
qed

lemma rolling_mean_diff_defined:
  assumes "7 \<le> i" "i < length xs"
  shows "rolling_mean 7 (diff xs) ! i
           = Fin ((\<Sum>j = i - 6..i. of_int (xs ! j - xs ! (j - 1))) / 7)"
proof -
  let ?q = "\<lambda>j. (of_int (xs ! j - xs ! (j - 1)) :: rat)"
  have "map (\<lambda>j. Fin (?q j)) [i - 6..<i + 1] = take 7 (drop (i - 6) (diff xs))"
  proof (rule map_upt_eqI)
    show "length (take 7 (drop (i - 6) (diff xs))) = i + 1 - (i - 6)"
      using assms by (simp add: length_diff)
  next
    fix k assume "k < length (take 7 (drop (i - 6) (diff xs)))"
    then have k: "k < 7" by simp
    then have "take 7 (drop (i - 6) (diff xs)) ! k = diff xs ! (i - 6 + k)"
      using assms by (simp add: length_diff)
    also have "\<dots> = Fin (?q (i - 6 + k))"
      using assms k by (intro diff_nth) simp_all
    finally show "take 7 (drop (i - 6) (diff xs)) ! k = Fin (?q (i - 6 + k))" .
  qed
  then have win: "take 7 (drop (i - 6) (diff xs)) = map Fin (map ?q [i - 6..<i + 1])"
    by (simp add: o_def)
  have len: "length (map ?q [i - 6..<i + 1]) = 7" using assms by simp
  have "{i - 6..<i + 1} = {i - 6..i}" by auto
  then have total: "sum_list (map ?q [i - 6..<i + 1]) = sum ?q {i - 6..i}"
    by (simp only: interv_sum_list_conv_sum_set_nat set_upt)
  have "rolling_mean 7 (diff xs) ! i = window_mean (take 7 (drop (i - 6) (diff xs)))"
    using assms by (simp add: rolling_mean_nth length_diff)
  also have "\<dots> = window_mean (map Fin (map ?q [i - 6..<i + 1]))"
    by (simp only: win)
  also have "\<dots> = Fin (sum_list (map ?q [i - 6..<i + 1]) / of_nat (length (map ?q [i - 6..<i + 1])))"
    by (rule window_mean_map_Fin)
  also have "\<dots> = Fin (sum ?q {i - 6..i} / 7)"
    by (simp only: total len) simp
  finally show ?thesis .
qed

lemma calculate_growth_rates_eq:
  "calculate_growth_rates h a =
     (let f0 = sorted_frame (h ! a);
          dc = diff (map Confirmed (rows f0));
          dd = diff (map Deaths (rows f0));
          gc = map (\<lambda>v. round2 (fmul v 100)) (pct_change (map Confirmed (rows f0)));
          gd = map (\<lambda>v. round2 (fmul v 100)) (pct_change (map Deaths (rows f0)))
      in Inr (h @ [\<lparr>rows = rows f0,
                     derived =
                       AList.update ''Deaths_MA_7'' (rolling_mean 7 dd)
                        (AList.update ''Confirmed_MA_7'' (rolling_mean 7 dc)
                          (AList.update ''Death_Growth_Rate'' gd
                            (AList.update ''Confirmed_Growth_Rate'' gc
                              (AList.update ''Daily_Deaths'' dd
                                (AList.update ''Daily_Confirmed'' dc (derived f0))))))\<rparr>],
              length h))"
  unfolding calculate_growth_rates_def sort_values_def
  by (simp add: Let_def setitem_fresh getcol_fresh bind_def update_conv')

subsection \<open>Evaluation on the sample series\<close>

lemma sample_columns:
  "map Confirmed sample_series = [10, 40, 90, 160, 250, 360, 490, 640, 810]"
  "map Deaths sample_series = [1, 2, 3, 4, 5, 6, 7, 8, 9]"
  "map Date sample_series = [1, 2, 3, 4, 5, 6, 7, 8, 9]"
  by (simp_all add: sample_series_def merged_row_def)

lemma sample_daily:
  "diff [10, 40, 90, 160, 250, 360, 490, 640, 810]
     = [NaN, Fin 30, Fin 50, Fin 70, Fin 90, Fin 110, Fin 130, Fin 150, Fin 170]"
  "diff [1, 2, 3, 4, 5, 6, 7, 8, 9] = [NaN, Fin 1, Fin 1, Fin 1, Fin 1, Fin 1, Fin 1, Fin 1, Fin 1]"
  by (simp_all add: diff_def)

lemma sample_growth:
  "map (\<lambda>v. round2 (fmul v 100)) (pct_change [10, 40, 90, 160, 250, 360, 490, 640, 810])
     = [NaN, Fin 300, Fin 125, Fin (3889 / 50), Fin (225 / 4), Fin 44,
        Fin (3611 / 100), Fin (3061 / 100), Fin (664 / 25)]"
  "map (\<lambda>v. round2 (fmul v 100)) (pct_change [1, 2, 3, 4, 5, 6, 7, 8, 9])
     = [NaN, Fin 100, Fin 50, Fin (3333 / 100), Fin 25, Fin 20,
        Fin (1667 / 100), Fin (1429 / 100), Fin (25 / 2)]"
  by code_simp+

lemma sample_ma:
  "rolling_mean 7 [NaN, Fin 30, Fin 50, Fin 70, Fin 90, Fin 110, Fin 130, Fin 150, Fin 170]
     = [NaN, NaN, NaN, NaN, NaN, NaN, NaN, Fin 90, Fin 110]"
  "rolling_mean 7 [NaN, Fin 1, Fin 1, Fin 1, Fin 1, Fin 1, Fin 1, Fin 1, Fin 1]
     = [NaN, NaN, NaN, NaN, NaN, NaN, NaN, Fin 1, Fin 1]"
  by code_simp+


lemma sample_sorted_frame:
  "sorted_frame \<lparr>rows = sample_series, derived = []\<rparr> = \<lparr>rows = sample_series, derived = []\<rparr>"
proof -
  have "sorted (map Date sample_series)" by (simp add: sample_columns)
  then have "rows (sorted_frame \<lparr>rows = sample_series, derived = []\<rparr>) = sample_series"
    by (simp add: rows_sorted_frame sort_key_id_if_sorted)
  moreover have "derived (sorted_frame \<lparr>rows = sample_series, derived = []\<rparr>) = []"
    by (simp add: derived_sorted_frame_Nil)
  ultimately show ?thesis by (cases "sorted_frame \<lparr>rows = sample_series, derived = []\<rparr>") simp
qed

lemma sample_growth_eval:
  "calculate_growth_rates sample_store 0 =
     Inr ([\<lparr>rows = sample_series, derived = []\<rparr>,
           \<lparr>rows = sample_series,
            derived =
              [(''Daily_Confirmed'',
                [NaN, Fin 30, Fin 50, Fin 70, Fin 90, Fin 110, Fin 130, Fin 150, Fin 170]),
               (''Daily_Deaths'', [NaN, Fin 1, Fin 1, Fin 1, Fin 1, Fin 1, Fin 1, Fin 1, Fin 1]),
               (''Confirmed_Growth_Rate'',
                [NaN, Fin 300, Fin 125, Fin (3889 / 50), Fin (225 / 4), Fin 44,
                 Fin (3611 / 100), Fin (3061 / 100), Fin (664 / 25)]),
               (''Death_Growth_Rate'',
                [NaN, Fin 100, Fin 50, Fin (3333 / 100), Fin 25, Fin 20,
                 Fin (1667 / 100), Fin (1429 / 100), Fin (25 / 2)]),
               (''Confirmed_MA_7'', [NaN, NaN, NaN, NaN, NaN, NaN, NaN, Fin 90, Fin 110]),
               (''Deaths_MA_7'', [NaN, NaN, NaN, NaN, NaN, NaN, NaN, Fin 1, Fin 1])]\<rparr>],
          1)"
  unfolding calculate_growth_rates_eq sample_store_def
  by (simp add: Let_def sample_sorted_frame sample_columns sample_daily sample_growth sample_ma)

text \<open>
  Claim C4, as stated: the moving averages are defined from position 6 onward. The
  window of position 6 is the daily values of positions 0 to 6, and the daily value of
  position 0 is missing, so the window holds 6 values, fewer than the 7 that
  \<^verbatim>\<open>rolling(window=7)\<close> asks for: on the series of 9 rows below the two averages
  are NaN at positions 0 to 6 and defined at positions 7 and 8.
\<close>

theorem moving_average_undefined_at_six:
  "calculate_growth_rates sample_store 0 =
     Inr ([\<lparr>rows = sample_series, derived = []\<rparr>,
           \<lparr>rows = sample_series,
            derived =
              [(''Daily_Confirmed'',
                [NaN, Fin 30, Fin 50, Fin 70, Fin 90, Fin 110, Fin 130, Fin 150, Fin 170]),
               (''Daily_Deaths'', [NaN, Fin 1, Fin 1, Fin 1, Fin 1, Fin 1, Fin 1, Fin 1, Fin 1]),
               (''Confirmed_Growth_Rate'',
                [NaN, Fin 300, Fin 125, Fin (3889 / 50), Fin (225 / 4), Fin 44,
                 Fin (3611 / 100), Fin (3061 / 100), Fin (664 / 25)]),
               (''Death_Growth_Rate'',
                [NaN, Fin 100, Fin 50, Fin (3333 / 100), Fin 25, Fin 20,
                 Fin (1667 / 100), Fin (1429 / 100), Fin (25 / 2)]),
               (''Confirmed_MA_7'', [NaN, NaN, NaN, NaN, NaN, NaN, NaN, Fin 90, Fin 110]),
               (''Deaths_MA_7'', [NaN, NaN, NaN, NaN, NaN, NaN, NaN, Fin 1, Fin 1])]\<rparr>],
          1)"
  by (rule sample_growth_eval)

text \<open>
  Claim C4, amended. On a table sorted by date, of length \<open>L\<close>, the call returns a
  table with the same rows in the same order whose columns \<^verbatim>\<open>Daily_Confirmed\<close> and
  \<^verbatim>\<open>Daily_Deaths\<close> have length \<open>L\<close>, are missing at position 0 and hold
  \<open>Confirmed[i] - Confirmed[i-1]\<close> (resp. deaths) at every position \<open>i \<ge> 1\<close>, and
  whose columns \<^verbatim>\<open>Confirmed_MA_7\<close> and \<^verbatim>\<open>Deaths_MA_7\<close> have length \<open>L\<close>, are
  missing at the first 7 positions (0 to 6) and hold, at every position \<open>i \<ge> 7\<close>, the
  mean of the 7 daily values of positions \<open>i - 6\<close> to \<open>i\<close>.
\<close>

theorem growth_columns:
  assumes "a < length h" and "sorted (map Date (rows (h ! a)))"
  shows "\<exists>h' a' dc dd mc md.
     calculate_growth_rates h a = Inr (h', a') \<and>
     rows (h' ! a') = rows (h ! a) \<and>
     map_of (derived (h' ! a')) ''Daily_Confirmed'' = Some dc \<and>
     map_of (derived (h' ! a')) ''Daily_Deaths'' = Some dd \<and>
     map_of (derived (h' ! a')) ''Confirmed_MA_7'' = Some mc \<and>
     map_of (derived (h' ! a')) ''Deaths_MA_7'' = Some md \<and>
     length dc = length (rows (h ! a)) \<and> length dd = length (rows (h ! a)) \<and>
     length mc = length (rows (h ! a)) \<and> length md = length (rows (h ! a)) \<and>
     (rows (h ! a) \<noteq> [] \<longrightarrow> dc ! 0 = NaN \<and> dd ! 0 = NaN) \<and>
     (\<forall>i. 1 \<le> i \<and> i < length (rows (h ! a)) \<longrightarrow>
        dc ! i = Fin (of_int (Confirmed (rows (h ! a) ! i) - Confirmed (rows (h ! a) ! (i - 1)))) \<and>
        dd ! i = Fin (of_int (Deaths (rows (h ! a) ! i) - Deaths (rows (h ! a) ! (i - 1))))) \<and>
     (\<forall>i. i < 7 \<and> i < length (rows (h ! a)) \<longrightarrow> mc ! i = NaN \<and> md ! i = NaN) \<and>
     (\<forall>i. 7 \<le> i \<and> i < length (rows (h ! a)) \<longrightarrow>
        mc ! i = Fin ((\<Sum>j = i - 6..i.
                 of_int (Confirmed (rows (h ! a) ! j) - Confirmed (rows (h ! a) ! (j - 1)))) / 7) \<and>
        md ! i = Fin ((\<Sum>j = i - 6..i.
                 of_int (Deaths (rows (h ! a) ! j) - Deaths (rows (h ! a) ! (j - 1)))) / 7))"
proof -
  let ?rs = "rows (h ! a)"
  from calculate_growth_rates_result[of h a] obtain f where
    res: "calculate_growth_rates h a = Inr (h @ [f], length h)"
    and rows0: "rows f = sort_key Date ?rs"
    and dc: "map_of (derived f) ''Daily_Confirmed'' = Some (diff (map Confirmed (rows f)))"
    and dd: "map_of (derived f) ''Daily_Deaths'' = Some (diff (map Deaths (rows f)))"
    and mc: "map_of (derived f) ''Confirmed_MA_7'' = Some (rolling_mean 7 (diff (map Confirmed (rows f))))"
    and md: "map_of (derived f) ''Deaths_MA_7'' = Some (rolling_mean 7 (diff (map Deaths (rows f))))"
    by blast
  have rows: "rows f = ?rs" using assms(2) by (simp add: rows0 sort_key_id_if_sorted)
  have sums: "(\<Sum>j = i - 6..i. rat_of_int (map col ?rs ! j - map col ?rs ! (j - 1)))
      = (\<Sum>j = i - 6..i. rat_of_int (col (?rs ! j) - col (?rs ! (j - 1))))"
    if "i < length ?rs" for i and col :: "merged_record \<Rightarrow> int"
    by (rule sum.cong) (use that in auto)
  show ?thesis
  proof (intro exI conjI allI impI)
    show "calculate_growth_rates h a = Inr (h @ [f], length h)" by (rule res)
    show "rows ((h @ [f]) ! length h) = ?rs" by (simp add: rows)
    show "map_of (derived ((h @ [f]) ! length h)) ''Daily_Confirmed'' = Some (diff (map Confirmed ?rs))"
      using dc by (simp add: rows)
    show "map_of (derived ((h @ [f]) ! length h)) ''Daily_Deaths'' = Some (diff (map Deaths ?rs))"
      using dd by (simp add: rows)
    show "map_of (derived ((h @ [f]) ! length h)) ''Confirmed_MA_7''
        = Some (rolling_mean 7 (diff (map Confirmed ?rs)))"
      using mc by (simp add: rows)
    show "map_of (derived ((h @ [f]) ! length h)) ''Deaths_MA_7''
        = Some (rolling_mean 7 (diff (map Deaths ?rs)))"
      using md by (simp add: rows)
    show "length (diff (map Confirmed ?rs)) = length ?rs" by (simp add: length_diff)
    show "length (diff (map Deaths ?rs)) = length ?rs" by (simp add: length_diff)
    show "length (rolling_mean 7 (diff (map Confirmed ?rs))) = length ?rs"
      by (simp add: length_rolling_mean length_diff)
    show "length (rolling_mean 7 (diff (map Deaths ?rs))) = length ?rs"
      by (simp add: length_rolling_mean length_diff)
    show "diff (map Confirmed ?rs) ! 0 = NaN" if "?rs \<noteq> []"
      using that by (simp add: diff_nth_0)
    show "diff (map Deaths ?rs) ! 0 = NaN" if "?rs \<noteq> []"
      using that by (simp add: diff_nth_0)
  next
    fix i assume i: "1 \<le> i \<and> i < length ?rs"
    show "diff (map Confirmed ?rs) ! i = Fin (of_int (Confirmed (?rs ! i) - Confirmed (?rs ! (i - 1))))"
      using i by (simp add: diff_map_nth)
    show "diff (map Deaths ?rs) ! i = Fin (of_int (Deaths (?rs ! i) - Deaths (?rs ! (i - 1))))"
      using i by (simp add: diff_map_nth)
  next
    fix i assume i: "i < 7 \<and> i < length ?rs"
    show "rolling_mean 7 (diff (map Confirmed ?rs)) ! i = NaN"
      using i by (simp add: rolling_mean_diff_undefined)
    show "rolling_mean 7 (diff (map Deaths ?rs)) ! i = NaN"
      using i by (simp add: rolling_mean_diff_undefined)
  next
    fix i assume i: "7 \<le> i \<and> i < length ?rs"
    show "rolling_mean 7 (diff (map Confirmed ?rs)) ! i
        = Fin ((\<Sum>j = i - 6..i. of_int (Confirmed (?rs ! j) - Confirmed (?rs ! (j - 1)))) / 7)"
      using i rolling_mean_diff_defined[of i "map Confirmed ?rs"] sums[of i Confirmed]
      by simp
    show "rolling_mean 7 (diff (map Deaths ?rs)) ! i
        = Fin ((\<Sum>j = i - 6..i. of_int (Deaths (?rs ! j) - Deaths (?rs ! (j - 1)))) / 7)"
      using i rolling_mean_diff_defined[of i "map Deaths ?rs"] sums[of i Deaths]
      by simp
  qed
qed

theorem growth_columns_witness:
  "(0::nat) < length sample_store \<and>
   sorted (map Date (rows (sample_store ! 0))) \<and>
   length (rows (sample_store ! 0)) = 9 \<and>
   (\<exists>h' a'. calculate_growth_rates sample_store 0 = Inr (h', a') \<and>
      map_of (derived (h' ! a')) ''Daily_Confirmed''
        = Some [NaN, Fin 30, Fin 50, Fin 70, Fin 90, Fin 110, Fin 130, Fin 150, Fin 170] \<and>
      map_of (derived (h' ! a')) ''Confirmed_MA_7''
        = Some [NaN, NaN, NaN, NaN, NaN, NaN, NaN, Fin 90, Fin 110])"
proof -
  have v: "(0::nat) < length sample_store" by (simp add: sample_store_def)
  have s: "sorted (map Date (rows (sample_store ! 0)))"
    by (simp add: sample_store_def sample_series_def merged_row_def)
  have l: "length (rows (sample_store ! 0)) = 9"
    by (simp add: sample_store_def sample_series_def)
  note e = sample_growth_eval
  from growth_columns[OF v s] v s l e show ?thesis by simp
qed

text \<open>
  Claim C10. The call does not change the caller's table: it returns the address of a
  new object, different from the caller's, and every object that existed before the
  call (the caller's table among them) has the same rows, in the same order, and the
  same columns after it. The new object holds the same rows, as often, in ascending
  order of date, and the six added columns.
\<close>

theorem caller_frame_unchanged:
  assumes "a < length h"
  shows "\<exists>h' a'.
     calculate_growth_rates h a = Inr (h', a') \<and>
     a' = length h \<and> a' \<noteq> a \<and> length h' = length h + 1 \<and>
     (\<forall>b<length h. h' ! b = h ! b) \<and>
     mset (rows (h' ! a')) = mset (rows (h ! a)) \<and>
     sorted (map Date (rows (h' ! a'))) \<and>
     {''Daily_Confirmed'', ''Daily_Deaths'', ''Confirmed_Growth_Rate'',
      ''Death_Growth_Rate'', ''Confirmed_MA_7'', ''Deaths_MA_7''}
       \<subseteq> fst ` set (derived (h' ! a'))"
proof -
  from calculate_growth_rates_result[of h a] obtain f where
    res: "calculate_growth_rates h a = Inr (h @ [f], length h)"
    and rows: "rows f = sort_key Date (rows (h ! a))"
    and cols: "map_of (derived f) ''Daily_Confirmed'' \<noteq> None"
      "map_of (derived f) ''Daily_Deaths'' \<noteq> None"
      "map_of (derived f) ''Confirmed_Growth_Rate'' \<noteq> None"
      "map_of (derived f) ''Death_Growth_Rate'' \<noteq> None"
      "map_of (derived f) ''Confirmed_MA_7'' \<noteq> None"
      "map_of (derived f) ''Deaths_MA_7'' \<noteq> None"
    by auto
  from cols have names: "{''Daily_Confirmed'', ''Daily_Deaths'', ''Confirmed_Growth_Rate'',
      ''Death_Growth_Rate'', ''Confirmed_MA_7'', ''Deaths_MA_7''} \<subseteq> fst ` set (derived f)"
    by (simp only: map_of_eq_None_iff) simp
  show ?thesis
  proof (intro exI conjI allI impI)
    show "calculate_growth_rates h a = Inr (h @ [f], length h)" by (rule res)
    show "length h = length h" ..
    show "length h \<noteq> a" using assms by simp
    show "length (h @ [f]) = length h + 1" by simp
    show "(h @ [f]) ! b = h ! b" if "b < length h" for b using that by (simp add: nth_append)
    show "mset (rows ((h @ [f]) ! length h)) = mset (rows (h ! a))" by (simp add: rows)
    show "sorted (map Date (rows ((h @ [f]) ! length h)))" by (simp add: rows)
    show "{''Daily_Confirmed'', ''Daily_Deaths'', ''Confirmed_Growth_Rate'',
      ''Death_Growth_Rate'', ''Confirmed_MA_7'', ''Deaths_MA_7''}
       \<subseteq> fst ` set (derived ((h @ [f]) ! length h))" using names by simp
  qed
qed

theorem caller_frame_unchanged_witness:
  "(0::nat) < length unsorted_store \<and>
   (\<exists>h' a'. calculate_growth_rates unsorted_store 0 = Inr (h', a') \<and> a' = 1 \<and>
      h' ! 0 = \<lparr>rows = [merged_row ''A'' 3 30, merged_row ''A'' 1 10, merged_row ''A'' 2 20],
                 derived = [(''Note'', [Fin 3, Fin 1, Fin 2])]\<rparr> \<and>
      mset (rows (h' ! a'))
        = mset [merged_row ''A'' 3 30, merged_row ''A'' 1 10, merged_row ''A'' 2 20] \<and>
      sorted (map Date (rows (h' ! a'))))"
proof -
  have v: "(0::nat) < length unsorted_store" by (simp add: unsorted_store_def)
  have u: "unsorted_store ! 0
      = \<lparr>rows = [merged_row ''A'' 3 30, merged_row ''A'' 1 10, merged_row ''A'' 2 20],
                 derived = [(''Note'', [Fin 3, Fin 1, Fin 2])]\<rparr>"
    by (simp add: unsorted_store_def)
  then have r: "rows (unsorted_store ! 0)
      = [merged_row ''A'' 3 30, merged_row ''A'' 1 10, merged_row ''A'' 2 20]"
    by simp
  from caller_frame_unchanged[OF v] obtain h' a' where
    res: "calculate_growth_rates unsorted_store 0 = Inr (h', a')"
    and a: "a' = length unsorted_store"
    and old: "\<forall>b<length unsorted_store. h' ! b = unsorted_store ! b"
    and same: "mset (rows (h' ! a')) = mset (rows (unsorted_store ! 0))"
    and asc: "sorted (map Date (rows (h' ! a')))"
    by (elim exE conjE) (rule that, assumption+)
  from a have a1: "a' = 1" by (simp add: unsorted_store_def)
  from old v have "h' ! 0 = unsorted_store ! 0" by blast
  then have h0: "h' ! 0
      = \<lparr>rows = [merged_row ''A'' 3 30, merged_row ''A'' 1 10, merged_row ''A'' 2 20],
                 derived = [(''Note'', [Fin 3, Fin 1, Fin 2])]\<rparr>"
    by (simp only: u)
  from same have same_rows: "mset (rows (h' ! a'))
        = mset [merged_row ''A'' 3 30, merged_row ''A'' 1 10, merged_row ''A'' 2 20]"
    by (simp only: r)
  from res a1 h0 same_rows asc have
   "\<exists>h' a'. calculate_growth_rates unsorted_store 0 = Inr (h', a') \<and> a' = 1 \<and>
      h' ! 0 = \<lparr>rows = [merged_row ''A'' 3 30, merged_row ''A'' 1 10, merged_row ''A'' 2 20],
                 derived = [(''Note'', [Fin 3, Fin 1, Fin 2])]\<rparr> \<and>
      mset (rows (h' ! a'))
        = mset [merged_row ''A'' 3 30, merged_row ''A'' 1 10, merged_row ''A'' 2 20] \<and>
      sorted (map Date (rows (h' ! a')))"
    by (intro exI conjI)
  with v show ?thesis by (rule conjI)
qed

end
